theory Spec2Isabelle
  imports Complex_Main "HOL-Library.AList" "HOL-Library.Multiset"
begin

section \<open>Python values, strings and dictionaries\<close>

text \<open>
  The programs are Python. A cell of a parsed CSV row is a \<open>str\<close> or \<open>None\<close>, a field of a
  roster entry is a \<open>str\<close> or an \<open>int\<close>, and a cell of a merged row is whatever the merge
  copied or the integer \<open>0\<close>: one datatype covers the three.
\<close>

datatype pyval = PyNone | PyStr string | PyInt int

text \<open>
  A Python \<open>dict\<close> keeps its keys in insertion order and holds each key once; assigning to
  a key that is present replaces the value in place, assigning to a new key appends. That
  is an association list with distinct keys and \<open>AList.update\<close>.
\<close>

type_synonym 'v dict = "(string \<times> 'v) list"

definition dict_set :: "'v dict \<Rightarrow> string \<Rightarrow> 'v \<Rightarrow> 'v dict" where
  "dict_set d k v = AList.update k v d"

definition dict_get :: "'v dict \<Rightarrow> string \<Rightarrow> 'v \<Rightarrow> 'v" where
  "dict_get d k dflt = (case map_of d k of None \<Rightarrow> dflt | Some v \<Rightarrow> v)"

definition dict_has :: "'v dict \<Rightarrow> string \<Rightarrow> bool" where
  "dict_has d k = (map_of d k \<noteq> None)"

definition dict_update :: "'v dict \<Rightarrow> 'v dict \<Rightarrow> 'v dict" where
  "dict_update d e = fold (\<lambda>(k, v) acc. dict_set acc k v) e d"

text \<open>
  Strings are lists of characters, read as ASCII text. \<open>is_space\<close> is \<open>str.isspace\<close> on
  ASCII, which is also what \<open>\s\<close> matches and what \<open>str.strip()\<close> removes: tab, line feed,
  vertical tab, form feed, carriage return, the four separators 0x1C to 0x1F, and space.
\<close>

definition is_space :: "char \<Rightarrow> bool" where
  "is_space c = (c \<in> set [CHR 0x09, CHR 0x0A, CHR 0x0B, CHR 0x0C, CHR 0x0D,
                           CHR 0x1C, CHR 0x1D, CHR 0x1E, CHR 0x1F, CHR 0x20])"

text \<open>\<open>str.upper()\<close> on ASCII: the twenty-six lower-case letters change, nothing else does.\<close>

definition upper_char :: "char \<Rightarrow> char" where
  "upper_char c =
     (case map_of (zip ''abcdefghijklmnopqrstuvwxyz'' ''ABCDEFGHIJKLMNOPQRSTUVWXYZ'') c of
        None \<Rightarrow> c
      | Some u \<Rightarrow> u)"

definition py_upper :: "string \<Rightarrow> string" where
  "py_upper s = map upper_char s"

definition py_strip :: "string \<Rightarrow> string" where
  "py_strip s = rev (dropWhile is_space (rev (dropWhile is_space s)))"

text \<open>\<open>re.sub(r'\s+', ' ', s)\<close>: every maximal run of whitespace becomes one space.\<close>

function collapse_ws :: "string \<Rightarrow> string" where
  "collapse_ws [] = []"
| "collapse_ws (c # cs) =
     (if is_space c then CHR 0x20 # collapse_ws (dropWhile is_space cs)
      else c # collapse_ws cs)"
  by pat_completeness auto
termination
  by (relation "measure length") (auto simp: length_dropWhile_le less_Suc_eq_le)

text \<open>\<open>a in b\<close> on strings: \<open>a\<close> occurs in \<open>b\<close> as a contiguous substring.\<close>

fun is_prefix :: "string \<Rightarrow> string \<Rightarrow> bool" where
  "is_prefix [] ys = True"
| "is_prefix (x # xs) [] = False"
| "is_prefix (x # xs) (y # ys) = (x = y \<and> is_prefix xs ys)"

fun str_in :: "string \<Rightarrow> string \<Rightarrow> bool" where
  "str_in a [] = (a = [])"
| "str_in a (c # cs) = (is_prefix a (c # cs) \<or> str_in a cs)"

section \<open>combine_player_data.py: PlayerDataCombiner\<close>

text \<open>
  A roster entry as \<open>load_teams_info\<close> leaves it in \<open>all_players\<close>. The code reads every
  field with \<open>player.get(key, '')\<close>, so a field of the record holds what that call returns
  (the empty string for an absent key). The three fields used for matching are strings in
  the roster file; the others are copied through and may be integers.
\<close>

record player =
  name :: string
  fullName :: string
  team_name :: string
  negara :: pyval
  usia :: pyval
  posisi :: pyval
  pictureUrl :: pyval
  penampilan :: pyval

type_synonym stats_row = "pyval dict"

definition stat_columns :: "string list" where
  "stat_columns =
     [''Assist'', ''Ball Recovery'', ''Block'', ''Block Cross'', ''Clearance'',
      ''Create Chance'', ''Cross'', ''Dribble Success'', ''Foul'', ''Fouled'',
      ''Free Kick'', ''Goal'', ''Header Won'', ''Intercept'', ''Own Goal'',
      ''Passing'', ''Penalty Goal'', ''Saves'', ''Shoot Off Target'',
      ''Shoot On Target'', ''Tackle'', ''Yellow Card'']"

text \<open>Truthiness of a Python value, as \<open>if player_name:\<close> tests it.\<close>

fun truthy :: "pyval \<Rightarrow> bool" where
  "truthy PyNone = False"
| "truthy (PyStr s) = (s \<noteq> [])"
| "truthy (PyInt i) = (i \<noteq> 0)"

datatype py_error = KeyError | BadKey

text \<open>
  \<open>load_player_stats\<close>: the loop over the rows of \<open>csv.DictReader\<close>, run on the rows already
  parsed. \<open>row['Player Name']\<close> raises \<open>KeyError\<close> when the file has no such column; the
  \<open>except\<close> clause then returns False. A row whose name is empty or None is skipped. The
  names of a CSV file are strings; an integer there cannot come from the reader and is
  reported as \<open>BadKey\<close>.
\<close>

fun load_rows :: "stats_row list \<Rightarrow> stats_row dict \<Rightarrow> py_error + stats_row dict" where
  "load_rows [] player_stats = Inr player_stats"
| "load_rows (row # rest) player_stats =
     (case map_of row ''Player Name'' of
        None \<Rightarrow> Inl KeyError
      | Some player_name \<Rightarrow>
          (if truthy player_name then
             (case player_name of
                PyStr s \<Rightarrow> load_rows rest (dict_set player_stats s row)
              | _ \<Rightarrow> Inl BadKey)
           else load_rows rest player_stats))"

definition load_player_stats :: "stats_row list \<Rightarrow> py_error + stats_row dict" where
  "load_player_stats reader = load_rows reader []"

text \<open>\<open>clean_name\<close>: strip, upper-case, collapse whitespace; the empty string stays empty.\<close>

definition clean_name :: "string \<Rightarrow> string" where
  "clean_name nm = (if nm = [] then [] else collapse_ws (py_upper (py_strip nm)))"

text \<open>
  The loop of strategy 3 over \<open>player_stats.items()\<close>: the first entry, in dictionary order,
  whose team equals the target's and whose cleaned name equals the cleaned full name or the
  cleaned name. Within one entry the full name is tried first.
\<close>

fun clean_loop ::
  "string \<Rightarrow> string \<Rightarrow> string \<Rightarrow> stats_row dict \<Rightarrow> stats_row option \<times> string" where
  "clean_loop team clean_full_name clean_nm [] = (None, ''no_match'')"
| "clean_loop team clean_full_name clean_nm ((stats_player_name, stats) # rest) =
     (if dict_get stats ''Team'' (PyStr []) = PyStr team then
        (let clean_stats_name = clean_name stats_player_name in
         if clean_stats_name = clean_full_name then (Some stats, ''clean_fullname_team'')
         else if clean_stats_name = clean_nm then (Some stats, ''clean_name_team'')
         else clean_loop team clean_full_name clean_nm rest)
      else clean_loop team clean_full_name clean_nm rest)"

definition exact_hit :: "stats_row dict \<Rightarrow> string \<Rightarrow> string \<Rightarrow> stats_row option" where
  "exact_hit player_stats key team =
     (case map_of player_stats key of
        None \<Rightarrow> None
      | Some stats \<Rightarrow> if dict_get stats ''Team'' (PyStr []) = PyStr team then Some stats else None)"

definition find_player_stats :: "stats_row dict \<Rightarrow> player \<Rightarrow> stats_row option \<times> string" where
  "find_player_stats player_stats p =
     (case exact_hit player_stats (fullName p) (team_name p) of
        Some stats \<Rightarrow> (Some stats, ''exact_fullname_team'')
      | None \<Rightarrow>
         (case exact_hit player_stats (name p) (team_name p) of
            Some stats \<Rightarrow> (Some stats, ''exact_name_team'')
          | None \<Rightarrow>
              clean_loop (team_name p) (clean_name (fullName p)) (clean_name (name p))
                player_stats))"

definition create_empty_stats :: "stats_row" where
  "create_empty_stats = fold (\<lambda>col empty_stats. dict_set empty_stats col (PyInt 0)) stat_columns []"

text \<open>
  The body of the loop of \<open>combine_data\<close> for one roster entry. The counters and the list
  of unmatched players are only printed; the rows are what the function returns. The line
  printed for a match reads \<open>stats['Player Name']\<close>, which raises KeyError when the matched
  row has no such key; nothing in \<open>combine_data\<close> catches it.
\<close>

record combine_state =
  combined_data :: "pyval dict list"
  matched_count :: nat
  team_validated_matches :: nat
  non_team_matches :: nat
  unmatched_players :: "string list"

definition base_row :: "player \<Rightarrow> pyval dict" where
  "base_row p =
     [(''Name'', PyStr (name p)), (''Player Name'', PyStr (fullName p)),
      (''Team'', PyStr (team_name p)), (''Country'', negara p), (''Age'', usia p),
      (''Position'', posisi p), (''Picture Url'', pictureUrl p),
      (''Appearances'', penampilan p)]"

text \<open>\<open>if value == '' or value is None: value = 0\<close>; any other value is kept as it is.\<close>

definition zero_if_empty :: "pyval \<Rightarrow> pyval" where
  "zero_if_empty v = (if v = PyStr [] \<or> v = PyNone then PyInt 0 else v)"

definition add_statistics :: "stats_row \<Rightarrow> pyval dict \<Rightarrow> pyval dict" where
  "add_statistics stats row0 =
     fold (\<lambda>col row.
             dict_set row col
               (zero_if_empty (if stats \<noteq> [] then dict_get stats col (PyStr []) else PyStr [])))
          stat_columns row0"

definition combine_player ::
  "stats_row dict \<Rightarrow> player \<Rightarrow> combine_state \<Rightarrow> py_error + combine_state" where
  "combine_player player_stats p st =
     (let (found, match_type) = find_player_stats player_stats p;
          hit = (case found of
                   None \<Rightarrow> False
                 | Some s \<Rightarrow> s \<noteq> [] \<and> match_type \<noteq> ''no_match'');
          stats = (case found of
                     None \<Rightarrow> create_empty_stats
                   | Some s \<Rightarrow> if hit then s else create_empty_stats)
      in
      if hit \<and> map_of stats ''Player Name'' = None then Inl KeyError
      else
        (let st1 = (if hit then
                      (if str_in ''team'' match_type then
                         st\<lparr>matched_count := matched_count st + 1,
                            team_validated_matches := team_validated_matches st + 1\<rparr>
                       else
                         st\<lparr>matched_count := matched_count st + 1,
                            non_team_matches := non_team_matches st + 1\<rparr>)
                    else
                      st\<lparr>unmatched_players := unmatched_players st @
                           [name p @ '' ('' @ fullName p @ '') from '' @ team_name p]\<rparr>)
         in Inr (st1\<lparr>combined_data := combined_data st1 @ [add_statistics stats (base_row p)]\<rparr>)))"

fun combine_loop ::
  "stats_row dict \<Rightarrow> player list \<Rightarrow> combine_state \<Rightarrow> py_error + combine_state" where
  "combine_loop player_stats [] st = Inr st"
| "combine_loop player_stats (p # rest) st =
     (case combine_player player_stats p st of
        Inl e \<Rightarrow> Inl e
      | Inr st' \<Rightarrow> combine_loop player_stats rest st')"

definition init_state :: combine_state where
  "init_state = \<lparr>combined_data = [], matched_count = 0, team_validated_matches = 0,
                  non_team_matches = 0, unmatched_players = []\<rparr>"

text \<open>
  \<open>combine_data\<close>: \<open>Inr None\<close> is the source's \<open>return False\<close> when the roster or the
  statistics are empty, \<open>Inl\<close> an exception that leaves the function.
\<close>

definition combine_data ::
  "player list \<Rightarrow> stats_row dict \<Rightarrow> py_error + combine_state option" where
  "combine_data all_players player_stats =
     (if all_players = [] \<or> player_stats = [] then Inr None
      else
        (case combine_loop player_stats all_players init_state of
           Inl e \<Rightarrow> Inl e
         | Inr st \<Rightarrow> Inr (Some st)))"

section \<open>player_scraper.py: match_player_by_fullname\<close>

text \<open>
  \<open>str.replace(old, new)\<close> for a non-empty \<open>old\<close>, which is what both calls in
  \<open>clean_text\<close> pass: occurrences are replaced from the left, without overlap.
\<close>

function str_replace :: "string \<Rightarrow> string \<Rightarrow> string \<Rightarrow> string" where
  "str_replace old new [] = []"
| "str_replace old new (c # cs) =
     (if is_prefix old (c # cs) then new @ str_replace old new (drop (length old - 1) cs)
      else c # str_replace old new cs)"
  by pat_completeness auto
termination
  by (relation "measure (\<lambda>(old, new, s). length s)") auto

definition clean_text :: "string \<Rightarrow> string" where
  "clean_text text =
     (if text = [] then []
      else str_replace ''&amp;'' ''&'' (str_replace ''&nbsp;'' '' '' (collapse_ws (py_strip text))))"

definition partial_fullname :: "string \<Rightarrow> player \<Rightarrow> bool" where
  "partial_fullname scraped_name_clean p =
     (let full_name = py_upper (fullName p)
      in str_in scraped_name_clean full_name \<or> str_in full_name scraped_name_clean)"

definition partial_name :: "string \<Rightarrow> player \<Rightarrow> bool" where
  "partial_name scraped_name_clean p =
     (let nm = py_upper (name p)
      in str_in scraped_name_clean nm \<or> str_in nm scraped_name_clean)"

text \<open>Four loops over the roster, each returning the first player that passes its test.\<close>

definition match_player_by_fullname :: "string \<Rightarrow> player list \<Rightarrow> player option" where
  "match_player_by_fullname scraped_name all_players =
     (let scraped_name_clean = py_upper (clean_text scraped_name) in
      case find (\<lambda>p. py_upper (fullName p) = scraped_name_clean) all_players of
        Some p \<Rightarrow> Some p
      | None \<Rightarrow>
         (case find (\<lambda>p. py_upper (name p) = scraped_name_clean) all_players of
            Some p \<Rightarrow> Some p
          | None \<Rightarrow>
             (case find (partial_fullname scraped_name_clean) all_players of
                Some p \<Rightarrow> Some p
              | None \<Rightarrow> find (partial_name scraped_name_clean) all_players)))"

section \<open>viz/profile_finder.py: ProfileScorer\<close>

text \<open>
  The player frame. \<open>columns\<close> lists its column labels (\<open>df.columns\<close>) and \<open>text_columns\<close>
  those among them that hold text (Name, Team and so on); a row gives the value of each
  numeric column, the contents of the text columns are not modelled, and the index label of
  a row is its position. The numbers are Python floats and NumPy integers in the source;
  here they are exact rationals, so rounding is not modelled and no cell is NaN.
\<close>

type_synonym row = "string \<Rightarrow> rat"

record dataframe =
  columns :: "string list"
  text_columns :: "string list"
  rows :: "row list"

definition negative_metrics :: "string list" where
  "negative_metrics = [''Own Goal'', ''Yellow Card'', ''Foul'', ''Shoot Off Target'']"

definition column :: "dataframe \<Rightarrow> string \<Rightarrow> rat list" where
  "column df metric = map (\<lambda>r. r metric) (rows df)"

text \<open>
  The min-max scaling of one column inside the loop of \<open>calculate_category_score\<close>, on the
  whole column at once. The flag is the source's \<open>metric in self.negative_metrics\<close>. The
  minimum of an empty column is NaN in pandas, which equals nothing, and the arithmetic on
  an empty column gives an empty column.
\<close>

definition normalized_values :: "bool \<Rightarrow> rat list \<Rightarrow> rat list" where
  "normalized_values negative col_values =
     (if col_values = [] then []
      else
        (let col_min = Min (set col_values); col_max = Max (set col_values) in
         if col_max = col_min then replicate (length col_values) 50
         else if negative then
           map (\<lambda>v. 100 - ((v - col_min) / (col_max - col_min) * 100)) col_values
         else
           map (\<lambda>v. (v - col_min) / (col_max - col_min) * 100) col_values))"

text \<open>\<open>weighted_scores\<close>: starts as a column of zeros and gains one term per metric.\<close>

definition weighted_scores :: "dataframe \<Rightarrow> rat dict \<Rightarrow> rat list" where
  "weighted_scores df normalized_weights =
     fold (\<lambda>(metric, weight) acc.
             if metric \<in> set (columns df) then
               map2 (+) acc
                 (map (\<lambda>v. v * weight)
                    (normalized_values (metric \<in> set negative_metrics) (column df metric)))
             else acc)
          normalized_weights (replicate (length (rows df)) 0)"

text \<open>
  \<open>Series.rank(pct=True)\<close> of pandas, with its defaults (ascending, ties get the average of
  their ranks): the values below \<open>x\<close> take the ranks 1 to \<open>L\<close>, the \<open>E\<close> values equal to
  \<open>x\<close> share the ranks \<open>L + 1\<close> to \<open>L + E\<close>, whose average is \<open>L + (E + 1) / 2\<close>;
  \<open>pct\<close> divides the rank by the number of values.
\<close>

definition rank_pct :: "rat list \<Rightarrow> rat list" where
  "rank_pct xs =
     map (\<lambda>x. (of_nat (length (filter (\<lambda>y. y < x) xs)) +
                (of_nat (length (filter (\<lambda>y. y = x) xs)) + 1) / 2) / of_nat (length xs)) xs"

text \<open>
  The exceptions that leave the scoring functions. \<open>TextMetric\<close>: a weight names a text
  column; the source then takes the minimum and maximum of strings and subtracts them,
  which raises TypeError (unless all cells of that column are equal); the model stops
  there, since it does not hold the text. \<open>MissingColumn\<close> and \<open>MissingRow\<close> are the KeyError
  of selecting a column label and of \<open>df.loc\<close> with a row label that the frame does not
  have.
\<close>

datatype score_exception = TextMetric | MissingColumn | MissingRow

text \<open>
  The ways in which \<open>calculate_category_score\<close> ends without a ranked frame.
  \<open>EmptyPopulation\<close> and \<open>NoScorableMetrics\<close> are its two early exits
  \<open>return pd.DataFrame()\<close>: the call returns normally, and what it returns is a bare empty
  frame, not the pair of a frame and the weights of the regular exit. The second one comes
  after the warning "No valid metrics found", the first one without a message. \<open>Raised\<close> is
  an exception that leaves the function.
\<close>

datatype score_error = EmptyPopulation | NoScorableMetrics | Raised score_exception

text \<open>The columns that \<open>calculate_category_score\<close> selects from the frame for its result.\<close>

definition selected_columns :: "string list" where
  "selected_columns = [''Player Name'', ''Team'', ''Position'', ''Age'', ''Appearances'']"

record scored_player =
  Rank :: nat
  cells :: row
  score :: rat
  percentile :: rat

record scored_frame =
  score_column :: string
  entries :: "scored_player list"

text \<open>
  \<open>calculate_category_score\<close>. Both early exits return an empty frame in the source, the
  second one after the warning "No valid metrics found". \<open>additional_metrics\<close> defaults to
  None. The frame is sorted by descending score and numbered from 1; the default sort of
  pandas does not fix the order of equal scores, the model keeps them in their original
  order, and no statement below depends on that order. The source then selects
  \<open>selected_columns\<close>, the new columns and the metric columns, which fails when the frame
  lacks one of the selected labels; the model keeps the whole row, and holds the three new
  columns (the rank, the score and its percentile) as fields beside it.
\<close>

definition calculate_category_score ::
  "dataframe \<Rightarrow> string \<Rightarrow> rat dict \<Rightarrow> rat dict option \<Rightarrow>
     score_error + (scored_frame \<times> rat dict)" where
  "calculate_category_score df category weights additional_metrics =
     (if rows df = [] then Inl EmptyPopulation
      else
        (let all_weights = (case additional_metrics of
                              None \<Rightarrow> weights
                            | Some extra \<Rightarrow> if extra = [] then weights else dict_update weights extra);
             available_weights = filter (\<lambda>(metric, weight). metric \<in> set (columns df)) all_weights
         in
         if available_weights = [] then Inl NoScorableMetrics
         else if list_ex (\<lambda>(metric, weight). metric \<in> set (text_columns df)) available_weights
         then Inl (Raised TextMetric)
         else
           (let total_weight = sum_list (map snd available_weights);
                normalized_weights =
                  (if total_weight > 0 then map (\<lambda>(k, v). (k, v / total_weight)) available_weights
                   else available_weights);
                scores = weighted_scores df normalized_weights;
                percentiles = map (\<lambda>p. p * 100) (rank_pct scores);
                result_df = zip (rows df) (zip scores percentiles);
                sorted_df = sort_key (\<lambda>(r, s, p). - s) result_df
            in
            if list_all (\<lambda>c. c \<in> set (columns df)) selected_columns then
              Inr (\<lparr>score_column = map (\<lambda>c. if c = CHR 0x20 then CHR ''_'' else c) category,
                     entries = map2 (\<lambda>i (r, s, p). \<lparr>Rank = i, cells = r, score = s, percentile = p\<rparr>)
                                 [1..<Suc (length sorted_df)] sorted_df\<rparr>,
                   normalized_weights)
            else Inl (Raised MissingColumn))))"

record contribution =
  raw_value :: rat
  normalized_score :: rat
  weight :: rat
  weighted_contribution :: rat

text \<open>
  \<open>get_metric_contributions\<close> for the row at \<open>player_idx\<close>. \<open>df.loc[player_idx, metric]\<close>
  raises KeyError for a label that is not in the index, the first time the loop body runs,
  before any arithmetic on the column. The function has no early exit: it returns the
  dictionary or an exception leaves it.
\<close>

definition get_metric_contributions ::
  "dataframe \<Rightarrow> nat \<Rightarrow> string \<Rightarrow> rat dict \<Rightarrow> rat dict option \<Rightarrow>
     score_exception + contribution dict" where
  "get_metric_contributions df player_idx category weights additional_metrics =
     (let all_weights = (case additional_metrics of
                           None \<Rightarrow> weights
                         | Some extra \<Rightarrow> if extra = [] then weights else dict_update weights extra);
          available_weights = filter (\<lambda>(metric, weight). metric \<in> set (columns df)) all_weights;
          total_weight = sum_list (map snd available_weights);
          normalized_weights =
            (if total_weight > 0 then map (\<lambda>(k, v). (k, v / total_weight)) available_weights
             else available_weights)
      in
      if normalized_weights \<noteq> [] \<and> length (rows df) \<le> player_idx then Inl MissingRow
      else if list_ex (\<lambda>(metric, w). metric \<in> set (text_columns df)) normalized_weights
      then Inl TextMetric
      else
        Inr (fold (\<lambda>(metric, w) contributions.
                     if metric \<in> set (columns df) then
                       (let col_values = column df metric;
                            col_min = Min (set col_values);
                            col_max = Max (set col_values);
                            player_value = (rows df ! player_idx) metric;
                            normalized_value =
                              (if col_max = col_min then 50
                               else if metric \<in> set negative_metrics then
                                 100 - ((player_value - col_min) / (col_max - col_min) * 100)
                               else (player_value - col_min) / (col_max - col_min) * 100)
                        in dict_set contributions metric
                             \<lparr>raw_value = player_value, normalized_score = normalized_value,
                                weight = w, weighted_contribution = normalized_value * w\<rparr>)
                     else contributions)
                  normalized_weights []))"

section \<open>Notions used to state the properties\<close>

text \<open>The rows of the statistics file that carry a given player name, in file order.\<close>

definition rows_named :: "string \<Rightarrow> stats_row list \<Rightarrow> stats_row list" where
  "rows_named n reader = filter (\<lambda>row. map_of row ''Player Name'' = Some (PyStr n)) reader"

text \<open>
  A pool entry that strategy 3 accepts for a target: same team string, and the cleaned key
  equals the target's cleaned full name or cleaned name.
\<close>

definition clean_candidate :: "player \<Rightarrow> string \<times> stats_row \<Rightarrow> bool" where
  "clean_candidate p e =
     (dict_get (snd e) ''Team'' (PyStr []) = PyStr (team_name p) \<and>
      (clean_name (fst e) = clean_name (fullName p) \<or> clean_name (fst e) = clean_name (name p)))"

text \<open>Concrete inputs: a roster entry with only the matching fields set, and statistics rows.\<close>

definition roster_entry :: "string \<Rightarrow> string \<Rightarrow> string \<Rightarrow> player" where
  "roster_entry nm full team =
     \<lparr>name = nm, fullName = full, team_name = team, negara = PyStr [], usia = PyStr [],
      posisi = PyStr [], pictureUrl = PyStr [], penampilan = PyStr []\<rparr>"

definition stats_of :: "string \<Rightarrow> string \<Rightarrow> stats_row" where
  "stats_of nm team = [(''Player Name'', PyStr nm), (''Team'', PyStr team)]"

text \<open>The statistics that the loop body of \<open>combine_data\<close> ends up using for a player.\<close>

definition stats_used :: "stats_row dict \<Rightarrow> player \<Rightarrow> stats_row" where
  "stats_used player_stats p =
     (case find_player_stats player_stats p of
        (None, match_type) \<Rightarrow> create_empty_stats
      | (Some s, match_type) \<Rightarrow>
          if s \<noteq> [] \<and> match_type \<noteq> ''no_match'' then s else create_empty_stats)"

text \<open>
  Counting in a list of scores, and two readings of "percentile". \<open>percent_rank_spec\<close>
  follows the words of the specification: the number of players with a strictly lower
  score, divided by the number of players, times 100. \<open>average_rank_pct\<close> is the average
  rank divided by the number of players, times 100.
\<close>

definition count_below :: "rat list \<Rightarrow> rat \<Rightarrow> nat" where
  "count_below scores x = length (filter (\<lambda>y. y < x) scores)"

definition count_equal :: "rat list \<Rightarrow> rat \<Rightarrow> nat" where
  "count_equal scores x = length (filter (\<lambda>y. y = x) scores)"

definition percent_rank_spec :: "rat list \<Rightarrow> rat \<Rightarrow> rat" where
  "percent_rank_spec scores x = of_nat (count_below scores x) / of_nat (length scores) * 100"

definition average_rank_pct :: "rat list \<Rightarrow> rat \<Rightarrow> rat" where
  "average_rank_pct scores x =
     (of_nat (count_below scores x) + (of_nat (count_equal scores x) + 1) / 2)
       / of_nat (length scores) * 100"

text \<open>
  Names for the three weight dictionaries that both scoring functions build in their first
  lines: preset and additional weights combined, those filtered to the columns of the
  frame, and the filtered weights divided by their total when the total is positive.
\<close>

definition combined_weights :: "rat dict \<Rightarrow> rat dict option \<Rightarrow> rat dict" where
  "combined_weights weights additional_metrics =
     (case additional_metrics of
        None \<Rightarrow> weights
      | Some extra \<Rightarrow> if extra = [] then weights else dict_update weights extra)"

definition filtered_weights :: "dataframe \<Rightarrow> rat dict \<Rightarrow> rat dict option \<Rightarrow> rat dict" where
  "filtered_weights df weights additional_metrics =
     filter (\<lambda>(metric, w). metric \<in> set (columns df)) (combined_weights weights additional_metrics)"

text \<open>
  The conditions under which \<open>calculate_category_score\<close> gets to its result: a non-empty
  population, some weight on a column of the frame, no weight on a text column, and the
  selected columns present.
\<close>

definition scorable :: "dataframe \<Rightarrow> rat dict \<Rightarrow> rat dict option \<Rightarrow> bool" where
  "scorable df weights additional_metrics =
     (rows df \<noteq> [] \<and> filtered_weights df weights additional_metrics \<noteq> [] \<and>
      \<not> list_ex (\<lambda>(metric, w). metric \<in> set (text_columns df))
           (filtered_weights df weights additional_metrics) \<and>
      list_all (\<lambda>c. c \<in> set (columns df)) selected_columns)"

definition used_weights :: "dataframe \<Rightarrow> rat dict \<Rightarrow> rat dict option \<Rightarrow> rat dict" where
  "used_weights df weights additional_metrics =
     (let available = filtered_weights df weights additional_metrics;
          total = sum_list (map snd available)
      in if total > 0 then map (\<lambda>(k, v). (k, v / total)) available else available)"

text \<open>
  A concrete frame: the six text columns of the merged table, and numeric columns with the
  given labels and the given values in each row.
\<close>

definition frame_of :: "string list \<Rightarrow> rat list list \<Rightarrow> dataframe" where
  "frame_of cols vals =
     \<lparr>columns = [''Name'', ''Player Name'', ''Team'', ''Country'', ''Position'', ''Picture Url'']
                 @ cols,
      text_columns = [''Name'', ''Player Name'', ''Team'', ''Country'', ''Position'', ''Picture Url''],
      rows = map (\<lambda>vs c. case map_of (zip cols vs) c of None \<Rightarrow> 0 | Some v \<Rightarrow> v) vals\<rparr>"

text \<open>
  The record that the loop body of \<open>get_metric_contributions\<close> stores for one metric.
\<close>

definition contribution_of :: "dataframe \<Rightarrow> nat \<Rightarrow> string \<Rightarrow> rat \<Rightarrow> contribution" where
  "contribution_of df player_idx metric w =
     (let col_values = column df metric;
          col_min = Min (set col_values);
          col_max = Max (set col_values);
          player_value = (rows df ! player_idx) metric;
          normalized_value =
            (if col_max = col_min then 50
             else if metric \<in> set negative_metrics then
               100 - ((player_value - col_min) / (col_max - col_min) * 100)
             else (player_value - col_min) / (col_max - col_min) * 100)
      in \<lparr>raw_value = player_value, normalized_score = normalized_value,
           weight = w, weighted_contribution = normalized_value * w\<rparr>)"

section \<open>Min-max normalisation\<close>

lemma Min_Max_const:
  assumes "vs \<noteq> []" "\<forall>v \<in> set vs. v = (c::rat)"
  shows "Min (set vs) = c" "Max (set vs) = c"
proof -
  have "set vs = {c}" using assms by (cases vs) auto
  then show "Min (set vs) = c" "Max (set vs) = c" by simp_all
qed

lemma normalized_values_length: "length (normalized_values neg vs) = length vs"
  by (simp add: normalized_values_def Let_def)

lemma normalized_values_inverted:
  "normalized_values True vs = map (\<lambda>x. 100 - x) (normalized_values False vs)"
  by (simp add: normalized_values_def Let_def)

lemma normalized_values_scale:
  "vs \<noteq> [] \<Longrightarrow> Max (set vs) \<noteq> Min (set vs) \<Longrightarrow>
     normalized_values False vs
       = map (\<lambda>v. (v - Min (set vs)) / (Max (set vs) - Min (set vs)) * 100) vs"
  by (simp add: normalized_values_def Let_def)

lemma normalized_values_antitone:
  assumes "i < length vs" "j < length vs" "vs ! i \<le> vs ! j"
  shows "normalized_values True vs ! j \<le> normalized_values True vs ! i"
proof (cases "Max (set vs) = Min (set vs)")
  case True
  have "vs \<noteq> []" using assms by auto
  with True show ?thesis using assms by (simp add: normalized_values_def)
next
  case False
  have ne: "vs \<noteq> []" using assms by auto
  have "Min (set vs) \<le> Max (set vs)" using ne by simp
  with False have pos: "0 < Max (set vs) - Min (set vs)" by simp
  have "(vs ! i - Min (set vs)) / (Max (set vs) - Min (set vs)) * 100
      \<le> (vs ! j - Min (set vs)) / (Max (set vs) - Min (set vs)) * 100"
    using assms(3) pos by (intro mult_right_mono divide_right_mono) simp_all
  then have "100 - (vs ! j - Min (set vs)) / (Max (set vs) - Min (set vs)) * 100
      \<le> 100 - (vs ! i - Min (set vs)) / (Max (set vs) - Min (set vs)) * 100"
    by simp
  moreover have "normalized_values True vs ! k
      = 100 - (vs ! k - Min (set vs)) / (Max (set vs) - Min (set vs)) * 100"
    if "k < length vs" for k
    using that False ne unfolding normalized_values_def Let_def by simp
  ultimately show ?thesis using assms(1,2) by simp
qed

text \<open>
  Claim C5. When the column has no variance (all values equal, which is the case where its
  maximum equals its minimum, and includes a single value), every normalised value is
  exactly 50, so \<open>[5, 5, 5]\<close> becomes \<open>[50, 50, 50]\<close>. A negative-polarity column is the
  positive-polarity one inverted, value by value, for every column: each value is 100 minus
  what positive polarity gives, where positive polarity maps a column with variance
  linearly from its minimum, at 0, to its maximum, at 100. Hence a lower raw value never
  scores lower than a higher one, and \<open>[0, 10]\<close> becomes \<open>[100, 0]\<close>.
\<close>

theorem normalized_values_flat_and_inverted:
  "((\<forall>v \<in> set vs. v = c) \<longrightarrow> normalized_values neg vs = replicate (length vs) 50)
   \<and> (Max (set vs) = Min (set vs) \<longrightarrow> normalized_values neg vs = replicate (length vs) 50)
   \<and> normalized_values neg [c] = [50]
   \<and> normalized_values False [5, 5, 5] = [50, 50, 50]
   \<and> normalized_values True [0, 10] = [100, 0]
   \<and> normalized_values True vs = map (\<lambda>x. 100 - x) (normalized_values False vs)
   \<and> (vs \<noteq> [] \<and> Max (set vs) \<noteq> Min (set vs) \<longrightarrow>
        normalized_values False vs
          = map (\<lambda>v. (v - Min (set vs)) / (Max (set vs) - Min (set vs)) * 100) vs)
   \<and> (\<forall>i < length vs. \<forall>j < length vs. vs ! i \<le> vs ! j \<longrightarrow>
          normalized_values True vs ! j \<le> normalized_values True vs ! i)"
proof (intro conjI impI allI)
  assume a: "\<forall>v \<in> set vs. v = c"
  show "normalized_values neg vs = replicate (length vs) 50"
  proof (cases "vs = []")
    case True
    then show ?thesis by (simp add: normalized_values_def)
  next
    case False
    from Min_Max_const[OF False a] show ?thesis
      using False by (simp add: normalized_values_def)
  qed
next
  assume "Max (set vs) = Min (set vs)"
  then show "normalized_values neg vs = replicate (length vs) 50"
    by (simp add: normalized_values_def)
next
  show "normalized_values neg [c] = [50]" by (simp add: normalized_values_def)
  show "normalized_values False [5, 5, 5] = [50, 50, 50]" by (simp add: normalized_values_def)
  show "normalized_values True [0, 10] = [100, 0]" by (simp add: normalized_values_def)
  show "normalized_values True vs = map (\<lambda>x. 100 - x) (normalized_values False vs)"
    by (rule normalized_values_inverted)
next
  assume "vs \<noteq> [] \<and> Max (set vs) \<noteq> Min (set vs)"
  then show "normalized_values False vs
          = map (\<lambda>v. (v - Min (set vs)) / (Max (set vs) - Min (set vs)) * 100) vs"
    by (simp add: normalized_values_scale)
next
  fix i j
  assume "i < length vs" "j < length vs" "vs ! i \<le> vs ! j"
  then show "normalized_values True vs ! j \<le> normalized_values True vs ! i"
    by (rule normalized_values_antitone)
qed

theorem normalized_values_flat_witness:
  "set [7, 7 :: rat] = {7} \<and> Max (set [7, 7 :: rat]) = Min (set [7, 7])
   \<and> normalized_values True [7, 7] = [50, 50]
   \<and> Max (set [0, 5, 10 :: rat]) \<noteq> Min (set [0, 5, 10])
   \<and> normalized_values False [0, 5, 10] = [0, 50, 100]
   \<and> normalized_values True [0, 5, 10] = [100, 50, 0]"
  using normalized_values_flat_and_inverted [of "[7, 7]" 7 True]
    normalized_values_flat_and_inverted [of "[0, 5, 10]" 0 True]
  by simp

section \<open>Loading the statistics\<close>

lemma load_rows_last:
  "load_rows reader acc = Inr pool \<Longrightarrow> distinct (map fst acc) \<Longrightarrow>
     distinct (map fst pool) \<and>
     map_of pool n =
       (if n \<noteq> [] \<and> rows_named n reader \<noteq> [] then Some (last (rows_named n reader))
        else map_of acc n)"
proof (induction reader arbitrary: acc)
  case Nil
  then show ?case by (simp add: rows_named_def)
next
  case (Cons row rest)
  show ?case
  proof (cases "map_of row ''Player Name''")
    case None
    with Cons.prems show ?thesis by simp
  next
    case (Some player_name)
    show ?thesis
    proof (cases "truthy player_name")
      case False
      with Some Cons.prems have "load_rows rest acc = Inr pool" by simp
      from Cons.IH[OF this Cons.prems(2)] Some False show ?thesis
        by (cases player_name) (auto simp: rows_named_def)
    next
      case True
      with Some Cons.prems obtain s where s: "player_name = PyStr s" "s \<noteq> []"
        and l: "load_rows rest (dict_set acc s row) = Inr pool"
        by (cases player_name) auto
      have d: "distinct (map fst (dict_set acc s row))"
        using Cons.prems(2) by (simp add: dict_set_def distinct_update)
      from Cons.IH[OF l d] Some s show ?thesis
        by (auto simp: rows_named_def dict_set_def update_conv')
    qed
  qed
qed

lemma distinct_fst_filter_le_1:
  "distinct (map fst d) \<Longrightarrow> length (filter (\<lambda>(k, r). k = n) d) \<le> 1"
  by (induction d) (auto simp: filter_empty_conv image_iff)

text \<open>
  Claim C9. After a successful load the candidate pool holds each player name at most once,
  and the record kept under a name is the last row of the file with that name: a later row
  replaces an earlier one, so two rows with one name (on different teams, say) are never
  both candidates.
\<close>

theorem load_player_stats_one_record_per_name:
  "load_player_stats reader = Inr pool \<Longrightarrow>
     distinct (map fst pool) \<and>
     length (filter (\<lambda>(k, r). k = n) pool) \<le> 1 \<and>
     map_of pool n =
       (if n \<noteq> [] \<and> rows_named n reader \<noteq> [] then Some (last (rows_named n reader))
        else None)"
  using load_rows_last[of reader "[]" pool n] distinct_fst_filter_le_1[of pool n]
  by (simp add: load_player_stats_def)

theorem load_player_stats_one_record_per_name_witness:
  "load_player_stats
     [[(''Player Name'', PyStr ''Budi''), (''Team'', PyStr ''FC ALPHA''), (''Goal'', PyStr ''3'')],
      [(''Player Name'', PyStr ''Budi''), (''Team'', PyStr ''FC BETA''), (''Goal'', PyStr ''1'')]]
   = Inr [(''Budi'',
           [(''Player Name'', PyStr ''Budi''), (''Team'', PyStr ''FC BETA''), (''Goal'', PyStr ''1'')])]
   \<and> map_of [(''Budi'',
           [(''Player Name'', PyStr ''Budi''), (''Team'', PyStr ''FC BETA''), (''Goal'', PyStr ''1'')])]
         ''Budi''
       = Some (last (rows_named ''Budi''
           [[(''Player Name'', PyStr ''Budi''), (''Team'', PyStr ''FC ALPHA''), (''Goal'', PyStr ''3'')],
            [(''Player Name'', PyStr ''Budi''), (''Team'', PyStr ''FC BETA''), (''Goal'', PyStr ''1'')]]))"
proof -
  have h: "load_player_stats
     [[(''Player Name'', PyStr ''Budi''), (''Team'', PyStr ''FC ALPHA''), (''Goal'', PyStr ''3'')],
      [(''Player Name'', PyStr ''Budi''), (''Team'', PyStr ''FC BETA''), (''Goal'', PyStr ''1'')]]
   = Inr [(''Budi'',
           [(''Player Name'', PyStr ''Budi''), (''Team'', PyStr ''FC BETA''), (''Goal'', PyStr ''1'')])]"
    by (simp add: load_player_stats_def dict_set_def)
  from load_player_stats_one_record_per_name[OF h, of "''Budi''"] h show ?thesis
    by (simp add: rows_named_def)
qed

section \<open>Identity resolution\<close>

lemma clean_loop_find:
  "clean_loop t cf cn pool =
     (case find (\<lambda>e. dict_get (snd e) ''Team'' (PyStr []) = PyStr t \<and>
                      (clean_name (fst e) = cf \<or> clean_name (fst e) = cn)) pool of
        None \<Rightarrow> (None, ''no_match'')
      | Some e \<Rightarrow> (Some (snd e),
          if clean_name (fst e) = cf then ''clean_fullname_team'' else ''clean_name_team''))"
  by (induction t cf cn pool rule: clean_loop.induct) (auto simp: Let_def)

lemma find_unique_set:
  assumes "set xs = set ys"
    and "\<And>x y. x \<in> set xs \<Longrightarrow> y \<in> set xs \<Longrightarrow> P x \<Longrightarrow> P y \<Longrightarrow> x = y"
  shows "find P xs = find P ys"
proof (cases "find P xs")
  case None
  then have "\<not> (\<exists>x \<in> set ys. P x)" using assms(1) by (auto simp: find_None_iff)
  then have "find P ys = None" by (auto simp: find_None_iff)
  with None show ?thesis by simp
next
  case (Some x)
  then have x: "x \<in> set xs" "P x" by (auto simp: find_Some_iff)
  then have "\<exists>y \<in> set ys. P y" using assms(1) by auto
  then obtain y where y: "find P ys = Some y" by (cases "find P ys") (auto simp: find_None_iff)
  then have "y \<in> set ys" "P y" by (auto simp: find_Some_iff)
  with x assms have "x = y" by auto
  with Some y show ?thesis by simp
qed

lemma permuted_dict:
  assumes "distinct (map fst pool)" "mset pool' = mset pool"
  shows "set pool' = set pool" "map_of pool' = map_of pool"
proof -
  show s: "set pool' = set pool" using assms(2) by (metis set_mset_mset)
  have "mset (map fst pool') = mset (map fst pool)" using assms(2) by (metis mset_map)
  then have "distinct (map fst pool')" using assms(1) by (metis mset_eq_imp_distinct_iff)
  then show "map_of pool' = map_of pool" using assms(1) s by (simp add: map_of_inject_set)
qed

lemma clean_loop_team:
  "clean_loop t cf cn pool = (Some stats, tier) \<Longrightarrow>
     dict_get stats ''Team'' (PyStr []) = PyStr t \<and> stats \<in> snd ` set pool"
  by (induction t cf cn pool rule: clean_loop.induct) (auto simp: Let_def split: if_splits)

lemma exact_hit_team:
  "exact_hit pool k t = Some stats \<Longrightarrow>
     dict_get stats ''Team'' (PyStr []) = PyStr t \<and> map_of pool k = Some stats"
  by (auto simp: exact_hit_def split: option.splits if_splits)

lemma find_player_stats_team:
  assumes "find_player_stats pool p = (Some stats, tier)"
  shows "dict_get stats ''Team'' (PyStr []) = PyStr (team_name p)"
  using assms
  by (auto simp: find_player_stats_def split: option.splits dest: exact_hit_team clean_loop_team)

lemma clean_name_john: "clean_name ''John   Smith'' = ''JOHN SMITH''"
  by (simp add: clean_name_def py_strip_def py_upper_def upper_char_def is_space_def)

lemma clean_name_JOHN: "clean_name ''JOHN SMITH'' = ''JOHN SMITH''"
  by (simp add: clean_name_def py_strip_def py_upper_def upper_char_def is_space_def)

lemma john_smith_example:
  assumes "fullName p = ''JOHN SMITH''" "team_name p = ''FC ALPHA''" "name p \<noteq> ''John   Smith''"
  shows "find_player_stats
           [(''John   Smith'', stats_of ''John   Smith'' ''FC ALPHA''),
            (''JOHN SMITH'', stats_of ''JOHN SMITH'' ''FC BETA'')] p
         = (Some (stats_of ''John   Smith'' ''FC ALPHA''), ''clean_fullname_team'')"
    and "find_player_stats
           [(''JOHN SMITH'', stats_of ''JOHN SMITH'' ''FC BETA''),
            (''John   Smith'', stats_of ''John   Smith'' ''FC ALPHA'')] p
         = (Some (stats_of ''John   Smith'' ''FC ALPHA''), ''clean_fullname_team'')"
  using assms
  by (auto simp: find_player_stats_def exact_hit_def dict_get_def stats_of_def
        clean_name_john clean_name_JOHN)

text \<open>
  Claim C4. A target with full name "JOHN SMITH" and team "FC ALPHA" (and a display name
  that is not itself the key "John   Smith"; the claim's target has none), resolved against
  the pool of "John   Smith" on FC ALPHA and "JOHN SMITH" on FC BETA, in either order,
  gets the first candidate with tier \<open>clean_fullname_team\<close>. In general every record that
  \<open>find_player_stats\<close> returns carries the target's team string, so a candidate whose name
  equals the target's full name or name but whose team differs is never returned.
\<close>

theorem find_player_stats_team_validated:
  "(fullName p = ''JOHN SMITH'' \<and> team_name p = ''FC ALPHA'' \<and> name p \<noteq> ''John   Smith'' \<longrightarrow>
      find_player_stats
        [(''John   Smith'', stats_of ''John   Smith'' ''FC ALPHA''),
         (''JOHN SMITH'', stats_of ''JOHN SMITH'' ''FC BETA'')] p
      = (Some (stats_of ''John   Smith'' ''FC ALPHA''), ''clean_fullname_team'') \<and>
      find_player_stats
        [(''JOHN SMITH'', stats_of ''JOHN SMITH'' ''FC BETA''),
         (''John   Smith'', stats_of ''John   Smith'' ''FC ALPHA'')] p
      = (Some (stats_of ''John   Smith'' ''FC ALPHA''), ''clean_fullname_team''))
   \<and> (find_player_stats pool q = (Some stats, tier) \<longrightarrow>
        dict_get stats ''Team'' (PyStr []) = PyStr (team_name q))
   \<and> ((map_of pool (fullName q) = Some other \<or> map_of pool (name q) = Some other) \<and>
        dict_get other ''Team'' (PyStr []) \<noteq> PyStr (team_name q) \<longrightarrow>
        fst (find_player_stats pool q) \<noteq> Some other)"
proof (intro conjI impI)
  assume "fullName p = ''JOHN SMITH'' \<and> team_name p = ''FC ALPHA'' \<and> name p \<noteq> ''John   Smith''"
  then show "find_player_stats
        [(''John   Smith'', stats_of ''John   Smith'' ''FC ALPHA''),
         (''JOHN SMITH'', stats_of ''JOHN SMITH'' ''FC BETA'')] p
      = (Some (stats_of ''John   Smith'' ''FC ALPHA''), ''clean_fullname_team'')"
    and "find_player_stats
        [(''JOHN SMITH'', stats_of ''JOHN SMITH'' ''FC BETA''),
         (''John   Smith'', stats_of ''John   Smith'' ''FC ALPHA'')] p
      = (Some (stats_of ''John   Smith'' ''FC ALPHA''), ''clean_fullname_team'')"
    using john_smith_example[of p] by simp_all
next
  assume "find_player_stats pool q = (Some stats, tier)"
  then show "dict_get stats ''Team'' (PyStr []) = PyStr (team_name q)"
    by (rule find_player_stats_team)
next
  assume a: "(map_of pool (fullName q) = Some other \<or> map_of pool (name q) = Some other) \<and>
        dict_get other ''Team'' (PyStr []) \<noteq> PyStr (team_name q)"
  show "fst (find_player_stats pool q) \<noteq> Some other"
  proof
    assume "fst (find_player_stats pool q) = Some other"
    then have "find_player_stats pool q = (Some other, snd (find_player_stats pool q))"
      by (metis prod.collapse)
    from find_player_stats_team[OF this] a show False by simp
  qed
qed

theorem find_player_stats_team_validated_witness:
  "find_player_stats
     [(''John   Smith'', stats_of ''John   Smith'' ''FC ALPHA''),
      (''JOHN SMITH'', stats_of ''JOHN SMITH'' ''FC BETA'')]
     (roster_entry [] ''JOHN SMITH'' ''FC ALPHA'')
   = (Some (stats_of ''John   Smith'' ''FC ALPHA''), ''clean_fullname_team'')
   \<and> map_of [(''John   Smith'', stats_of ''John   Smith'' ''FC ALPHA''),
              (''JOHN SMITH'', stats_of ''JOHN SMITH'' ''FC BETA'')]
         (fullName (roster_entry [] ''JOHN SMITH'' ''FC ALPHA''))
       = Some (stats_of ''JOHN SMITH'' ''FC BETA'')
   \<and> dict_get (stats_of ''JOHN SMITH'' ''FC BETA'') ''Team'' (PyStr []) \<noteq> PyStr ''FC ALPHA''
   \<and> dict_get (stats_of ''John   Smith'' ''FC ALPHA'') ''Team'' (PyStr []) = PyStr ''FC ALPHA''
   \<and> fst (find_player_stats
          [(''John   Smith'', stats_of ''John   Smith'' ''FC ALPHA''),
           (''JOHN SMITH'', stats_of ''JOHN SMITH'' ''FC BETA'')]
          (roster_entry [] ''JOHN SMITH'' ''FC ALPHA''))
       \<noteq> Some (stats_of ''JOHN SMITH'' ''FC BETA'')"
  using find_player_stats_team_validated
    [of "roster_entry [] ''JOHN SMITH'' ''FC ALPHA''"
        "[(''John   Smith'', stats_of ''John   Smith'' ''FC ALPHA''),
          (''JOHN SMITH'', stats_of ''JOHN SMITH'' ''FC BETA'')]"
        "roster_entry [] ''JOHN SMITH'' ''FC ALPHA''"
        "stats_of ''John   Smith'' ''FC ALPHA''" "''clean_fullname_team''"
        "stats_of ''JOHN SMITH'' ''FC BETA''"]
  by (simp add: roster_entry_def stats_of_def dict_get_def)

text \<open>
  Claim C3, as the code has it. The pool is a dictionary (distinct keys) and \<open>pool'\<close> is a
  permutation of it. The two exact strategies are dictionary lookups and do not depend on
  the order, and neither does whether a match is found at all. The record and the tier are
  those of the unpermuted pool whenever an exact strategy succeeds or at most one entry
  passes the test of strategy 3. Otherwise they depend on the order: when no exact strategy
  succeeds, the result in any enumeration order is the first entry, in that order, that
  passes the test of strategy 3, with the tier \<open>clean_fullname_team\<close> when its cleaned key
  is the target's cleaned full name and \<open>clean_name_team\<close> when not, and no match when no
  entry passes.
\<close>

theorem find_player_stats_permutation:
  "distinct (map fst pool) \<Longrightarrow> mset pool' = mset pool \<Longrightarrow>
     exact_hit pool' k t = exact_hit pool k t
     \<and> (fst (find_player_stats pool' p) = None) = (fst (find_player_stats pool p) = None)
     \<and> (exact_hit pool (fullName p) (team_name p) \<noteq> None \<or>
        exact_hit pool (name p) (team_name p) \<noteq> None \<or>
        (\<forall>e1 \<in> set pool. \<forall>e2 \<in> set pool.
            clean_candidate p e1 \<and> clean_candidate p e2 \<longrightarrow> e1 = e2)
        \<longrightarrow> find_player_stats pool' p = find_player_stats pool p)
     \<and> (exact_hit pool' (fullName p) (team_name p) = None \<and>
        exact_hit pool' (name p) (team_name p) = None
        \<longrightarrow> find_player_stats pool' p =
              (case find (clean_candidate p) pool' of
                 None \<Rightarrow> (None, ''no_match'')
               | Some e \<Rightarrow> (Some (snd e),
                   if clean_name (fst e) = clean_name (fullName p) then ''clean_fullname_team''
                   else ''clean_name_team'')))"
proof -
  assume d: "distinct (map fst pool)" and m: "mset pool' = mset pool"
  note pd = permuted_dict[OF d m]
  have e: "exact_hit pool' key team = exact_hit pool key team" for key team
    by (simp add: exact_hit_def pd(2))
  let ?loop = "clean_loop (team_name p) (clean_name (fullName p)) (clean_name (name p))"
  have loop: "?loop xs =
     (case find (clean_candidate p) xs of
        None \<Rightarrow> (None, ''no_match'')
      | Some e \<Rightarrow> (Some (snd e),
          if clean_name (fst e) = clean_name (fullName p) then ''clean_fullname_team''
          else ''clean_name_team''))" for xs
    unfolding clean_loop_find clean_candidate_def by simp
  have ex: "(fst (?loop xs) = None) = (\<not> (\<exists>e \<in> set xs. clean_candidate p e))" for xs
  proof (cases "find (clean_candidate p) xs")
    case None
    then have "\<not> (\<exists>e \<in> set xs. clean_candidate p e)" by (auto simp: find_None_iff)
    then show ?thesis unfolding loop None by auto
  next
    case (Some e)
    then have "e \<in> set xs \<and> clean_candidate p e" by (auto simp: find_Some_iff)
    with Some show ?thesis unfolding loop by auto
  qed
  have none: "(fst (?loop pool') = None) = (fst (?loop pool) = None)"
    unfolding ex pd(1) by simp
  have found: "(fst (find_player_stats xs p) = None) =
      (exact_hit xs (fullName p) (team_name p) = None \<and>
       exact_hit xs (name p) (team_name p) = None \<and> fst (?loop xs) = None)" for xs
    by (auto simp: find_player_stats_def split: option.splits)
  have uniq: "find_player_stats pool' p = find_player_stats pool p"
    if u: "\<forall>e1 \<in> set pool. \<forall>e2 \<in> set pool.
            clean_candidate p e1 \<and> clean_candidate p e2 \<longrightarrow> e1 = e2"
  proof -
    have "find (clean_candidate p) pool' = find (clean_candidate p) pool"
      using u pd(1) by (intro find_unique_set) auto
    then have "?loop pool' = ?loop pool" unfolding loop by simp
    then show ?thesis unfolding find_player_stats_def e by (simp split: option.splits)
  qed
  have exact: "find_player_stats pool' p = find_player_stats pool p"
    if "exact_hit pool (fullName p) (team_name p) \<noteq> None \<or>
        exact_hit pool (name p) (team_name p) \<noteq> None"
    using that unfolding find_player_stats_def e by (auto split: option.splits)
  show ?thesis
  proof (intro conjI impI)
    show "exact_hit pool' k t = exact_hit pool k t" by (rule e)
    show "(fst (find_player_stats pool' p) = None) = (fst (find_player_stats pool p) = None)"
      unfolding found e none by simp
    assume h: "exact_hit pool (fullName p) (team_name p) \<noteq> None \<or>
        exact_hit pool (name p) (team_name p) \<noteq> None \<or>
        (\<forall>e1 \<in> set pool. \<forall>e2 \<in> set pool.
            clean_candidate p e1 \<and> clean_candidate p e2 \<longrightarrow> e1 = e2)"
    show "find_player_stats pool' p = find_player_stats pool p"
    proof (cases "exact_hit pool (fullName p) (team_name p) \<noteq> None \<or>
        exact_hit pool (name p) (team_name p) \<noteq> None")
      case True
      then show ?thesis by (rule exact)
    next
      case False
      with h have "\<forall>e1 \<in> set pool. \<forall>e2 \<in> set pool.
            clean_candidate p e1 \<and> clean_candidate p e2 \<longrightarrow> e1 = e2"
        by fast
      then show ?thesis by (rule uniq)
    qed
  next
    assume "exact_hit pool' (fullName p) (team_name p) = None \<and>
        exact_hit pool' (name p) (team_name p) = None"
    then show "find_player_stats pool' p =
              (case find (clean_candidate p) pool' of
                 None \<Rightarrow> (None, ''no_match'')
               | Some e \<Rightarrow> (Some (snd e),
                   if clean_name (fst e) = clean_name (fullName p) then ''clean_fullname_team''
                   else ''clean_name_team''))"
      by (simp add: find_player_stats_def loop)
  qed
qed

theorem find_player_stats_permutation_witness:
  "distinct (map fst [(''AB'', stats_of ''AB'' ''T''), (''CD'', stats_of ''CD'' ''T'')])
   \<and> mset [(''CD'', stats_of ''CD'' ''T''), (''AB'', stats_of ''AB'' ''T'')]
       = mset [(''AB'', stats_of ''AB'' ''T''), (''CD'', stats_of ''CD'' ''T'')]
   \<and> find_player_stats [(''CD'', stats_of ''CD'' ''T''), (''AB'', stats_of ''AB'' ''T'')]
         (roster_entry ''ab'' ''xy'' ''T'')
       = find_player_stats [(''AB'', stats_of ''AB'' ''T''), (''CD'', stats_of ''CD'' ''T'')]
         (roster_entry ''ab'' ''xy'' ''T'')
   \<and> find_player_stats [(''AB'', stats_of ''AB'' ''T''), (''CD'', stats_of ''CD'' ''T'')]
         (roster_entry ''ab'' ''xy'' ''T'')
       = (Some (stats_of ''AB'' ''T''), ''clean_name_team'')
   \<and> exact_hit [(''CD'', stats_of ''CD'' ''T''), (''AB'', stats_of ''AB'' ''T'')] ''xy'' ''T'' = None
   \<and> exact_hit [(''CD'', stats_of ''CD'' ''T''), (''AB'', stats_of ''AB'' ''T'')] ''ab'' ''T'' = None
   \<and> find (clean_candidate (roster_entry ''ab'' ''xy'' ''T''))
         [(''CD'', stats_of ''CD'' ''T''), (''AB'', stats_of ''AB'' ''T'')]
       = Some (''AB'', stats_of ''AB'' ''T'')"
proof -
  have d: "distinct (map fst [(''AB'', stats_of ''AB'' ''T''), (''CD'', stats_of ''CD'' ''T'')])"
    by simp
  have m: "mset [(''CD'', stats_of ''CD'' ''T''), (''AB'', stats_of ''AB'' ''T'')]
       = mset [(''AB'', stats_of ''AB'' ''T''), (''CD'', stats_of ''CD'' ''T'')]"
    by simp
  have c: "clean_name ''AB'' = ''AB''" "clean_name ''CD'' = ''CD''" "clean_name ''ab'' = ''AB''"
    "clean_name ''xy'' = ''XY''"
    by (simp_all add: clean_name_def py_strip_def py_upper_def upper_char_def is_space_def)
  have v: "find_player_stats [(''AB'', stats_of ''AB'' ''T''), (''CD'', stats_of ''CD'' ''T'')]
         (roster_entry ''ab'' ''xy'' ''T'')
       = (Some (stats_of ''AB'' ''T''), ''clean_name_team'')"
    by (simp add: find_player_stats_def exact_hit_def roster_entry_def stats_of_def dict_get_def c)
  from find_player_stats_permutation[OF d m, of "''AB''" "''T''" "roster_entry ''ab'' ''xy'' ''T''"]
  have "find_player_stats [(''CD'', stats_of ''CD'' ''T''), (''AB'', stats_of ''AB'' ''T'')]
         (roster_entry ''ab'' ''xy'' ''T'')
       = find_player_stats [(''AB'', stats_of ''AB'' ''T''), (''CD'', stats_of ''CD'' ''T'')]
         (roster_entry ''ab'' ''xy'' ''T'')"
    by (simp add: clean_candidate_def roster_entry_def stats_of_def dict_get_def c)
  moreover have
    "exact_hit [(''CD'', stats_of ''CD'' ''T''), (''AB'', stats_of ''AB'' ''T'')] ''xy'' ''T'' = None"
    "exact_hit [(''CD'', stats_of ''CD'' ''T''), (''AB'', stats_of ''AB'' ''T'')] ''ab'' ''T'' = None"
    by (simp_all add: exact_hit_def)
  moreover have "find (clean_candidate (roster_entry ''ab'' ''xy'' ''T''))
         [(''CD'', stats_of ''CD'' ''T''), (''AB'', stats_of ''AB'' ''T'')]
       = Some (''AB'', stats_of ''AB'' ''T'')"
    by (simp add: clean_candidate_def roster_entry_def stats_of_def dict_get_def c)
  ultimately show ?thesis using d m v by simp
qed

text \<open>
  The claim as stated fails: with the target name "ab" and full name "cd", the pool in the
  order AB, CD gives the record AB with tier \<open>clean_name_team\<close>, and in the order CD, AB the
  record CD with tier \<open>clean_fullname_team\<close>.
\<close>

theorem find_player_stats_order_counterexample:
  "mset [(''CD'', stats_of ''CD'' ''T''), (''AB'', stats_of ''AB'' ''T'')]
     = mset [(''AB'', stats_of ''AB'' ''T''), (''CD'', stats_of ''CD'' ''T'')]
   \<and> find_player_stats [(''AB'', stats_of ''AB'' ''T''), (''CD'', stats_of ''CD'' ''T'')]
         (roster_entry ''ab'' ''cd'' ''T'')
       = (Some (stats_of ''AB'' ''T''), ''clean_name_team'')
   \<and> find_player_stats [(''CD'', stats_of ''CD'' ''T''), (''AB'', stats_of ''AB'' ''T'')]
         (roster_entry ''ab'' ''cd'' ''T'')
       = (Some (stats_of ''CD'' ''T''), ''clean_fullname_team'')"
proof -
  have c: "clean_name ''AB'' = ''AB''" "clean_name ''CD'' = ''CD''" "clean_name ''ab'' = ''AB''"
    "clean_name ''cd'' = ''CD''"
    by (simp_all add: clean_name_def py_strip_def py_upper_def upper_char_def is_space_def)
  show ?thesis
    by (simp add: find_player_stats_def exact_hit_def roster_entry_def stats_of_def dict_get_def c)
qed

section \<open>The resolver without team validation\<close>

lemma str_in_empty: "str_in [] s"
  by (cases s) simp_all

lemma partial_fullname_empty: "fullName q = [] \<Longrightarrow> partial_fullname c q"
  by (simp add: partial_fullname_def py_upper_def str_in_empty)

lemma find_agree:
  assumes "\<And>x. x \<in> set xs \<Longrightarrow> P x = Q x"
  shows "find P xs = find Q xs"
  using assms by (induction xs) auto

text \<open>
  Claim C10, as the code has it. A roster player with an empty full name passes the
  containment test of the third loop for every scraped name. So when the two exact loops
  find nothing and some player has an empty full name, the resolver does not return None:
  it returns the first player, in roster order, that passes the containment test on the
  full name. That is the first player with an empty full name when no player with a
  non-empty full name passes the test.
\<close>

theorem match_player_by_fullname_empty_fullName:
  "(fullName q = [] \<longrightarrow> partial_fullname c q)
   \<and> ((\<forall>p \<in> set ps. py_upper (fullName p) \<noteq> py_upper (clean_text scraped) \<and>
                      py_upper (name p) \<noteq> py_upper (clean_text scraped)) \<and>
       (\<exists>p \<in> set ps. fullName p = []) \<longrightarrow>
         match_player_by_fullname scraped ps
           = find (partial_fullname (py_upper (clean_text scraped))) ps
         \<and> match_player_by_fullname scraped ps \<noteq> None
         \<and> ((\<forall>p \<in> set ps. partial_fullname (py_upper (clean_text scraped)) p \<longrightarrow> fullName p = [])
              \<longrightarrow> match_player_by_fullname scraped ps = find (\<lambda>p. fullName p = []) ps))"
proof (intro conjI impI)
  assume "fullName q = []"
  then show "partial_fullname c q" by (rule partial_fullname_empty)
next
  let ?c = "py_upper (clean_text scraped)"
  assume a: "(\<forall>p \<in> set ps. py_upper (fullName p) \<noteq> ?c \<and> py_upper (name p) \<noteq> ?c) \<and>
       (\<exists>p \<in> set ps. fullName p = [])"
  have n1: "find (\<lambda>p. py_upper (fullName p) = ?c) ps = None"
    using a by (simp add: find_None_iff)
  have n2: "find (\<lambda>p. py_upper (name p) = ?c) ps = None"
    using a by (simp add: find_None_iff)
  from a obtain e where e: "e \<in> set ps" "fullName e = []" by blast
  then have "\<exists>p \<in> set ps. partial_fullname ?c p"
    using partial_fullname_empty by blast
  then obtain r where r: "find (partial_fullname ?c) ps = Some r"
    by (cases "find (partial_fullname ?c) ps") (auto simp: find_None_iff)
  show m: "match_player_by_fullname scraped ps = find (partial_fullname ?c) ps"
    by (simp add: match_player_by_fullname_def Let_def n1 n2 r)
  show "match_player_by_fullname scraped ps \<noteq> None"
    by (simp add: m r)
  assume "\<forall>p \<in> set ps. partial_fullname ?c p \<longrightarrow> fullName p = []"
  then have "find (partial_fullname ?c) ps = find (\<lambda>p. fullName p = []) ps"
    using partial_fullname_empty by (intro find_agree) blast
  with m show "match_player_by_fullname scraped ps = find (\<lambda>p. fullName p = []) ps"
    by simp
qed

theorem match_player_by_fullname_empty_fullName_witness:
  "partial_fullname ''BOB'' (roster_entry ''Y'' [] ''T'')
   \<and> match_player_by_fullname ''Bob'' [roster_entry ''X'' ''John Smith'' ''T'', roster_entry ''Y'' [] ''T'']
       = Some (roster_entry ''Y'' [] ''T'')
   \<and> find (\<lambda>p. fullName p = []) [roster_entry ''X'' ''John Smith'' ''T'', roster_entry ''Y'' [] ''T'']
       = Some (roster_entry ''Y'' [] ''T'')"
proof -
  have c: "py_upper (clean_text ''Bob'') = ''BOB''"
    by (simp add: clean_text_def py_strip_def py_upper_def upper_char_def is_space_def)
  have u: "py_upper ''John Smith'' = ''JOHN SMITH''" "py_upper ''X'' = ''X''" "py_upper ''Y'' = ''Y''"
    "py_upper [] = []"
    by (simp_all add: py_upper_def upper_char_def)
  have f: "find (\<lambda>p. fullName p = []) [roster_entry ''X'' ''John Smith'' ''T'', roster_entry ''Y'' [] ''T'']
       = Some (roster_entry ''Y'' [] ''T'')"
    by (simp add: roster_entry_def)
  from match_player_by_fullname_empty_fullName
    [of "roster_entry ''Y'' [] ''T''" "''BOB''"
        "[roster_entry ''X'' ''John Smith'' ''T'', roster_entry ''Y'' [] ''T'']" "''Bob''"]
  show ?thesis
    unfolding c f by (simp add: roster_entry_def partial_fullname_def u)
qed

text \<open>
  The claim as stated fails: for the scraped name "John", the roster of "John Smith" followed
  by a player with an empty full name has no exact match, and the resolver returns
  "John Smith" (whose full name contains the scraped name), not the first player with an
  empty full name.
\<close>

theorem match_player_by_fullname_counterexample:
  "find (\<lambda>p. py_upper (fullName p) = py_upper (clean_text ''John''))
      [roster_entry ''X'' ''John Smith'' ''T'', roster_entry ''Y'' [] ''T''] = None
   \<and> find (\<lambda>p. py_upper (name p) = py_upper (clean_text ''John''))
      [roster_entry ''X'' ''John Smith'' ''T'', roster_entry ''Y'' [] ''T''] = None
   \<and> find (\<lambda>p. fullName p = []) [roster_entry ''X'' ''John Smith'' ''T'', roster_entry ''Y'' [] ''T'']
       = Some (roster_entry ''Y'' [] ''T'')
   \<and> match_player_by_fullname ''John'' [roster_entry ''X'' ''John Smith'' ''T'', roster_entry ''Y'' [] ''T'']
       = Some (roster_entry ''X'' ''John Smith'' ''T'')
   \<and> roster_entry ''X'' ''John Smith'' ''T'' \<noteq> roster_entry ''Y'' [] ''T''"
proof -
  have c: "py_upper (clean_text ''John'') = ''JOHN''"
    by (simp add: clean_text_def py_strip_def py_upper_def upper_char_def is_space_def)
  have u: "py_upper ''John Smith'' = ''JOHN SMITH''" "py_upper ''X'' = ''X''" "py_upper ''Y'' = ''Y''"
    "py_upper [] = []"
    by (simp_all add: py_upper_def upper_char_def)
  show ?thesis
    unfolding match_player_by_fullname_def Let_def c
    by (simp add: roster_entry_def partial_fullname_def partial_name_def u)
qed

section \<open>Merging roster and statistics\<close>

lemma find_player_stats_in_pool:
  assumes "find_player_stats player_stats p = (Some s, match_type)"
  shows "s \<in> snd ` set player_stats"
proof -
  have e: "s \<in> snd ` set player_stats" if "exact_hit player_stats k t = Some s" for k t
  proof -
    from exact_hit_team[OF that] have "(k, s) \<in> set player_stats" by (simp add: map_of_SomeD)
    then show ?thesis by force
  qed
  from assms show ?thesis
    by (auto simp: find_player_stats_def split: option.splits dest: e clean_loop_team)
qed

lemma combine_player_rows:
  assumes "\<forall>row \<in> snd ` set player_stats. map_of row ''Player Name'' \<noteq> None"
  shows "\<exists>st'. combine_player player_stats p st = Inr st' \<and>
           combined_data st' = combined_data st @ [add_statistics (stats_used player_stats p) (base_row p)]"
proof (cases "find_player_stats player_stats p")
  case (Pair found match_type)
  show ?thesis
  proof (cases found)
    case None
    with Pair show ?thesis
      by (simp add: combine_player_def stats_used_def Let_def)
  next
    case (Some s)
    with Pair have "s \<in> snd ` set player_stats" using find_player_stats_in_pool by blast
    with assms have "map_of s ''Player Name'' \<noteq> None" by blast
    with Pair Some show ?thesis
      by (auto simp: combine_player_def stats_used_def Let_def)
  qed
qed

lemma combine_loop_rows:
  assumes "\<forall>row \<in> snd ` set player_stats. map_of row ''Player Name'' \<noteq> None"
  shows "\<exists>st'. combine_loop player_stats ps st = Inr st' \<and>
           combined_data st' = combined_data st
             @ map (\<lambda>p. add_statistics (stats_used player_stats p) (base_row p)) ps"
proof (induction ps arbitrary: st)
  case Nil
  then show ?case by simp
next
  case (Cons p ps)
  from combine_player_rows[OF assms, of p st] obtain st1 where
    s1: "combine_player player_stats p st = Inr st1"
    "combined_data st1 = combined_data st @ [add_statistics (stats_used player_stats p) (base_row p)]"
    by blast
  from Cons[of st1] obtain st2 where
    s2: "combine_loop player_stats ps st1 = Inr st2"
    "combined_data st2 = combined_data st1
       @ map (\<lambda>p. add_statistics (stats_used player_stats p) (base_row p)) ps"
    by blast
  from s1 s2 show ?case by simp
qed

lemma load_player_stats_rows_named:
  assumes "load_player_stats reader = Inr pool"
  shows "\<forall>row \<in> snd ` set pool. map_of row ''Player Name'' \<noteq> None"
proof
  fix row assume "row \<in> snd ` set pool"
  then obtain k where k: "(k, row) \<in> set pool" by force
  from assms have l: "load_rows reader [] = Inr pool" by (simp add: load_player_stats_def)
  from load_rows_last[OF l, of k] have d: "distinct (map fst pool)"
    and m: "map_of pool k =
       (if k \<noteq> [] \<and> rows_named k reader \<noteq> [] then Some (last (rows_named k reader))
        else None)"
    by simp_all
  from k d have "map_of pool k = Some row" by simp
  with m have ne: "rows_named k reader \<noteq> []" and r: "row = last (rows_named k reader)"
    by (auto split: if_splits)
  from ne have "last (rows_named k reader) \<in> set (rows_named k reader)" by (rule last_in_set)
  with r show "map_of row ''Player Name'' \<noteq> None" by (auto simp: rows_named_def)
qed

lemma map_of_fold_dict_set:
  "map_of (fold (\<lambda>col row. dict_set row col (f col)) cols row0) k
     = (if k \<in> set cols then Some (f k) else map_of row0 k)"
  by (induction cols arbitrary: row0) (auto simp: dict_set_def update_conv')

lemma map_of_add_statistics:
  "map_of (add_statistics stats row0) k
     = (if k \<in> set stat_columns
        then Some (zero_if_empty (if stats \<noteq> [] then dict_get stats k (PyStr []) else PyStr []))
        else map_of row0 k)"
  unfolding add_statistics_def by (rule map_of_fold_dict_set)

lemma create_empty_stats_get:
  "col \<in> set stat_columns \<Longrightarrow> dict_get create_empty_stats col (PyStr []) = PyInt 0"
  unfolding create_empty_stats_def dict_get_def by (simp add: map_of_fold_dict_set)

lemma create_empty_stats_nonempty: "create_empty_stats \<noteq> []"
  by (simp add: create_empty_stats_def stat_columns_def dict_set_def)

lemma dict_get_Nil: "dict_get [] k d = d"
  by (simp add: dict_get_def)

lemma find_player_stats_tier:
  "find_player_stats player_stats p = (Some s, match_type) \<Longrightarrow> match_type \<noteq> ''no_match''"
  by (auto simp: find_player_stats_def clean_loop_find split: option.splits if_splits)

lemma stats_used_cell:
  assumes "col \<in> set stat_columns"
  shows "zero_if_empty (if stats_used player_stats p \<noteq> []
                        then dict_get (stats_used player_stats p) col (PyStr []) else PyStr [])
     = (case fst (find_player_stats player_stats p) of
          None \<Rightarrow> PyInt 0
        | Some s \<Rightarrow> zero_if_empty (dict_get s col (PyStr [])))"
proof (cases "find_player_stats player_stats p")
  case (Pair found match_type)
  show ?thesis
  proof (cases found)
    case None
    with Pair assms show ?thesis
      by (simp add: stats_used_def create_empty_stats_get create_empty_stats_nonempty zero_if_empty_def)
  next
    case (Some s)
    with Pair have "match_type \<noteq> ''no_match''" using find_player_stats_tier by blast
    with Pair Some assms show ?thesis
      by (cases "s = []")
         (simp_all add: stats_used_def create_empty_stats_get create_empty_stats_nonempty
            zero_if_empty_def dict_get_Nil)
  qed
qed

lemma base_row_keys:
  "map_of (add_statistics stats (base_row p)) ''Name'' = Some (PyStr (name p))"
  "map_of (add_statistics stats (base_row p)) ''Player Name'' = Some (PyStr (fullName p))"
  "map_of (add_statistics stats (base_row p)) ''Team'' = Some (PyStr (team_name p))"
  by (simp_all add: map_of_add_statistics stat_columns_def base_row_def)

text \<open>
  Claim C2, as the code has it. \<open>combine_data\<close> returns False when the roster or the
  statistics are empty. Otherwise, for a pool whose rows all carry the key Player Name (as
  every pool built by \<open>load_player_stats\<close> does), it returns one row per roster player, in
  roster order, and every fixed metric column is present on every row: it holds the
  integer 0 when the player has no match or the matched cell is absent, empty or None, and
  otherwise the cell of the matched statistics row as it is, a string that is not parsed.
  In particular, when no player matches, all metrics of all rows are 0.
\<close>

theorem combine_data_rows:
  "(all_players = [] \<or> player_stats = [] \<longrightarrow> combine_data all_players player_stats = Inr None)
   \<and> (all_players \<noteq> [] \<and> player_stats \<noteq> [] \<and>
      (\<forall>row \<in> snd ` set player_stats. map_of row ''Player Name'' \<noteq> None) \<longrightarrow>
       (\<exists>st. combine_data all_players player_stats = Inr (Some st) \<and>
          length (combined_data st) = length all_players \<and>
          (\<forall>i < length all_players.
             map_of (combined_data st ! i) ''Name'' = Some (PyStr (name (all_players ! i))) \<and>
             map_of (combined_data st ! i) ''Player Name'' = Some (PyStr (fullName (all_players ! i))) \<and>
             map_of (combined_data st ! i) ''Team'' = Some (PyStr (team_name (all_players ! i))) \<and>
             (\<forall>col \<in> set stat_columns.
                map_of (combined_data st ! i) col =
                  (case fst (find_player_stats player_stats (all_players ! i)) of
                     None \<Rightarrow> Some (PyInt 0)
                   | Some stats \<Rightarrow>
                       (let cell = dict_get stats col (PyStr []) in
                        if cell = PyStr [] \<or> cell = PyNone then Some (PyInt 0) else Some cell))))))"
proof (intro conjI impI)
  assume "all_players = [] \<or> player_stats = []"
  then show "combine_data all_players player_stats = Inr None"
    by (auto simp: combine_data_def)
next
  assume a: "all_players \<noteq> [] \<and> player_stats \<noteq> [] \<and>
      (\<forall>row \<in> snd ` set player_stats. map_of row ''Player Name'' \<noteq> None)"
  then have ne: "all_players \<noteq> [] \<and> player_stats \<noteq> []"
    and named: "\<forall>row \<in> snd ` set player_stats. map_of row ''Player Name'' \<noteq> None"
    by simp_all
  from combine_loop_rows[OF named, of all_players init_state] obtain st where
    loop: "combine_loop player_stats all_players init_state = Inr st"
    and rows: "combined_data st
      = map (\<lambda>p. add_statistics (stats_used player_stats p) (base_row p)) all_players"
    by (auto simp: init_state_def)
  have cell: "map_of (combined_data st ! i) col =
                  (case fst (find_player_stats player_stats (all_players ! i)) of
                     None \<Rightarrow> Some (PyInt 0)
                   | Some stats \<Rightarrow>
                       (let cell = dict_get stats col (PyStr []) in
                        if cell = PyStr [] \<or> cell = PyNone then Some (PyInt 0) else Some cell))"
    if "i < length all_players" "col \<in> set stat_columns" for i col
    using that stats_used_cell[OF that(2), of player_stats "all_players ! i"]
    by (simp add: rows map_of_add_statistics zero_if_empty_def Let_def split: option.splits)
  have "combine_data all_players player_stats = Inr (Some st)"
    using ne loop by (simp add: combine_data_def)
  moreover have "length (combined_data st) = length all_players"
    by (simp add: rows)
  moreover have "(\<forall>i < length all_players.
             map_of (combined_data st ! i) ''Name'' = Some (PyStr (name (all_players ! i))) \<and>
             map_of (combined_data st ! i) ''Player Name'' = Some (PyStr (fullName (all_players ! i))) \<and>
             map_of (combined_data st ! i) ''Team'' = Some (PyStr (team_name (all_players ! i))) \<and>
             (\<forall>col \<in> set stat_columns.
                map_of (combined_data st ! i) col =
                  (case fst (find_player_stats player_stats (all_players ! i)) of
                     None \<Rightarrow> Some (PyInt 0)
                   | Some stats \<Rightarrow>
                       (let cell = dict_get stats col (PyStr []) in
                        if cell = PyStr [] \<or> cell = PyNone then Some (PyInt 0) else Some cell))))"
    using cell by (simp add: rows base_row_keys)
  ultimately show "\<exists>st. combine_data all_players player_stats = Inr (Some st) \<and>
          length (combined_data st) = length all_players \<and>
          (\<forall>i < length all_players.
             map_of (combined_data st ! i) ''Name'' = Some (PyStr (name (all_players ! i))) \<and>
             map_of (combined_data st ! i) ''Player Name'' = Some (PyStr (fullName (all_players ! i))) \<and>
             map_of (combined_data st ! i) ''Team'' = Some (PyStr (team_name (all_players ! i))) \<and>
             (\<forall>col \<in> set stat_columns.
                map_of (combined_data st ! i) col =
                  (case fst (find_player_stats player_stats (all_players ! i)) of
                     None \<Rightarrow> Some (PyInt 0)
                   | Some stats \<Rightarrow>
                       (let cell = dict_get stats col (PyStr []) in
                        if cell = PyStr [] \<or> cell = PyNone then Some (PyInt 0) else Some cell))))"
    by blast
qed

theorem combine_data_rows_witness:
  "\<not> isl (combine_data
     [roster_entry ''A'' ''AA'' ''T'', roster_entry ''B'' ''BB'' ''T'']
     [(''A'', stats_of ''A'' ''T'' @ [(''Goal'', PyStr ''3''), (''Assist'', PyStr [])])])
   \<and> projr (combine_data
        [roster_entry ''A'' ''AA'' ''T'', roster_entry ''B'' ''BB'' ''T'']
        [(''A'', stats_of ''A'' ''T'' @ [(''Goal'', PyStr ''3''), (''Assist'', PyStr [])])]) \<noteq> None
   \<and> map (\<lambda>row. (map_of row ''Name'', map_of row ''Goal'', map_of row ''Assist''))
         (combined_data (the (projr (combine_data
            [roster_entry ''A'' ''AA'' ''T'', roster_entry ''B'' ''BB'' ''T'']
            [(''A'', stats_of ''A'' ''T'' @ [(''Goal'', PyStr ''3''), (''Assist'', PyStr [])])]))))
       = [(Some (PyStr ''A''), Some (PyStr ''3''), Some (PyInt 0)),
          (Some (PyStr ''B''), Some (PyInt 0), Some (PyInt 0))]"
proof -
  let ?R = "[roster_entry ''A'' ''AA'' ''T'', roster_entry ''B'' ''BB'' ''T'']"
  let ?P = "[(''A'', stats_of ''A'' ''T'' @ [(''Goal'', PyStr ''3''), (''Assist'', PyStr [])])]"
  have c: "clean_name ''A'' = ''A''" "clean_name ''B'' = ''B''" "clean_name ''AA'' = ''AA''"
    "clean_name ''BB'' = ''BB''"
    by (simp_all add: clean_name_def py_strip_def py_upper_def upper_char_def is_space_def)
  have fa: "find_player_stats ?P (roster_entry ''A'' ''AA'' ''T'')
      = (Some (stats_of ''A'' ''T'' @ [(''Goal'', PyStr ''3''), (''Assist'', PyStr [])]),
         ''exact_name_team'')"
    by (simp add: find_player_stats_def exact_hit_def roster_entry_def stats_of_def dict_get_def)
  have fb: "find_player_stats ?P (roster_entry ''B'' ''BB'' ''T'') = (None, ''no_match'')"
    by (simp add: find_player_stats_def exact_hit_def roster_entry_def stats_of_def dict_get_def c)
  have cols: "''Goal'' \<in> set stat_columns" "''Assist'' \<in> set stat_columns"
    by (simp_all add: stat_columns_def)
  have h: "?R \<noteq> [] \<and> ?P \<noteq> [] \<and>
      (\<forall>row \<in> snd ` set ?P. map_of row ''Player Name'' \<noteq> None)"
    by (simp add: stats_of_def)
  from combine_data_rows[of ?R ?P, THEN conjunct2, rule_format, OF h]
  obtain st where st: "combine_data ?R ?P = Inr (Some st)"
    and len: "length (combined_data st) = length ?R"
    and rows: "\<forall>i < length ?R.
             map_of (combined_data st ! i) ''Name'' = Some (PyStr (name (?R ! i))) \<and>
             map_of (combined_data st ! i) ''Player Name'' = Some (PyStr (fullName (?R ! i))) \<and>
             map_of (combined_data st ! i) ''Team'' = Some (PyStr (team_name (?R ! i))) \<and>
             (\<forall>col \<in> set stat_columns.
                map_of (combined_data st ! i) col =
                  (case fst (find_player_stats ?P (?R ! i)) of
                     None \<Rightarrow> Some (PyInt 0)
                   | Some stats \<Rightarrow>
                       (let cell = dict_get stats col (PyStr []) in
                        if cell = PyStr [] \<or> cell = PyNone then Some (PyInt 0) else Some cell)))"
    by blast
  from len obtain r0 r1 where r: "combined_data st = [r0, r1]"
    by (auto simp: length_Suc_conv)
  have nm: "map_of (combined_data st ! i) ''Name'' = Some (PyStr (name (?R ! i)))"
    if "i < 2" for i
    using rows that by simp
  have cell: "map_of (combined_data st ! i) col =
      (case fst (find_player_stats ?P (?R ! i)) of
         None \<Rightarrow> Some (PyInt 0)
       | Some stats \<Rightarrow>
           (let cell = dict_get stats col (PyStr []) in
            if cell = PyStr [] \<or> cell = PyNone then Some (PyInt 0) else Some cell))"
    if "i < 2" "col \<in> set stat_columns" for i col
    using rows that by simp
  have f0: "fst (find_player_stats ?P (?R ! 0))
      = Some (stats_of ''A'' ''T'' @ [(''Goal'', PyStr ''3''), (''Assist'', PyStr [])])"
    by (simp add: fa)
  have f1: "fst (find_player_stats ?P (?R ! 1)) = None"
    by (simp add: fb)
  have n: "name (?R ! 0) = ''A''" "name (?R ! 1) = ''B''"
    by (simp_all add: roster_entry_def)
  have r0: "map_of r0 ''Name'' = Some (PyStr ''A'')" "map_of r0 ''Goal'' = Some (PyStr ''3'')"
    "map_of r0 ''Assist'' = Some (PyInt 0)"
    using nm[of 0] cell[of 0 "''Goal''"] cell[of 0 "''Assist''"] cols
    unfolding f0 n r by (simp_all add: stats_of_def dict_get_def)
  have r1: "map_of r1 ''Name'' = Some (PyStr ''B'')" "map_of r1 ''Goal'' = Some (PyInt 0)"
    "map_of r1 ''Assist'' = Some (PyInt 0)"
    using nm[of 1] cell[of 1 "''Goal''"] cell[of 1 "''Assist''"] cols
    unfolding f1 n r by simp_all
  show ?thesis by (simp add: st r r0 r1)
qed

text \<open>
  The claim as stated fails: a matched cell that is not empty is copied as the string it
  is. With "abc" under Goal and "7" under Assist the merged row holds the strings "abc"
  and "7", neither the number 0 nor the number 7.
\<close>

theorem combine_data_string_counterexample:
  "\<not> isl (combine_data [roster_entry ''A'' ''AA'' ''T'']
     [(''A'', stats_of ''A'' ''T'' @ [(''Goal'', PyStr ''abc''), (''Assist'', PyStr ''7'')])])
   \<and> projr (combine_data [roster_entry ''A'' ''AA'' ''T'']
        [(''A'', stats_of ''A'' ''T'' @ [(''Goal'', PyStr ''abc''), (''Assist'', PyStr ''7'')])]) \<noteq> None
   \<and> map_of (hd (combined_data (the (projr (combine_data [roster_entry ''A'' ''AA'' ''T'']
        [(''A'', stats_of ''A'' ''T'' @ [(''Goal'', PyStr ''abc''), (''Assist'', PyStr ''7'')])])))))
        ''Goal'' = Some (PyStr ''abc'')
   \<and> map_of (hd (combined_data (the (projr (combine_data [roster_entry ''A'' ''AA'' ''T'']
        [(''A'', stats_of ''A'' ''T'' @ [(''Goal'', PyStr ''abc''), (''Assist'', PyStr ''7'')])])))))
        ''Assist'' = Some (PyStr ''7'')"
proof -
  let ?P = "[(''A'', stats_of ''A'' ''T'' @ [(''Goal'', PyStr ''abc''), (''Assist'', PyStr ''7'')])]"
  have fa: "find_player_stats ?P (roster_entry ''A'' ''AA'' ''T'')
      = (Some (stats_of ''A'' ''T'' @ [(''Goal'', PyStr ''abc''), (''Assist'', PyStr ''7'')]),
         ''exact_name_team'')"
    by (simp add: find_player_stats_def exact_hit_def roster_entry_def stats_of_def dict_get_def)
  have su: "stats_used ?P (roster_entry ''A'' ''AA'' ''T'')
      = stats_of ''A'' ''T'' @ [(''Goal'', PyStr ''abc''), (''Assist'', PyStr ''7'')]"
    by (simp add: stats_used_def fa)
  have cols: "''Goal'' \<in> set stat_columns" "''Assist'' \<in> set stat_columns"
    by (simp_all add: stat_columns_def)
  have named: "\<forall>row \<in> snd ` set ?P. map_of row ''Player Name'' \<noteq> None"
    by (simp add: stats_of_def)
  from combine_loop_rows[OF named, of "[roster_entry ''A'' ''AA'' ''T'']" init_state]
  obtain st where loop: "combine_loop ?P [roster_entry ''A'' ''AA'' ''T''] init_state = Inr st"
    and rows: "combined_data st
      = [add_statistics (stats_used ?P (roster_entry ''A'' ''AA'' ''T''))
           (base_row (roster_entry ''A'' ''AA'' ''T''))]"
    by (auto simp: init_state_def)
  have cd: "combine_data [roster_entry ''A'' ''AA'' ''T''] ?P = Inr (Some st)"
    unfolding combine_data_def loop by simp
  show ?thesis
    unfolding cd sum.sel option.sel rows su list.sel map_of_add_statistics
    using cols by (simp add: stats_of_def dict_get_def zero_if_empty_def)
qed

section \<open>Composite scores\<close>

lemma length_normalized_values [simp]: "length (normalized_values neg xs) = length xs"
  by (simp add: normalized_values_def Let_def)

lemma length_column [simp]: "length (column df m) = length (rows df)"
  by (simp add: column_def)

lemma fold_scores_length:
  "length acc = length (rows df) \<Longrightarrow>
   length (fold (\<lambda>(metric, weight) acc.
             if metric \<in> set (columns df) then
               map2 (+) acc
                 (map (\<lambda>v. v * weight)
                    (normalized_values (metric \<in> set negative_metrics) (column df metric)))
             else acc) nw acc) = length (rows df)"
  by (induction nw arbitrary: acc) (auto split: prod.splits)

lemma length_weighted_scores [simp]: "length (weighted_scores df nw) = length (rows df)"
  unfolding weighted_scores_def by (rule fold_scores_length) simp

lemma length_rank_pct [simp]: "length (rank_pct xs) = length xs"
  by (simp add: rank_pct_def)

lemma numbered_rows:
  "map snd (zip [1..<Suc (length xs)] xs) = xs"
  "map fst (zip [1..<Suc (length xs)] xs) = [1..<Suc (length xs)]"
  by (rule map_snd_zip, simp del: upt_Suc) (rule map_fst_zip, simp del: upt_Suc)

lemma calculate_Inr:
  assumes "scorable df weights additional_metrics"
  shows "\<exists>frame. calculate_category_score df category weights additional_metrics
            = Inr (frame, used_weights df weights additional_metrics) \<and>
          map (\<lambda>e. (cells e, score e, percentile e)) (entries frame)
            = sort_key (\<lambda>(r, s, p). - s)
                (zip (rows df)
                  (zip (weighted_scores df (used_weights df weights additional_metrics))
                       (map (\<lambda>p. p * 100)
                          (rank_pct (weighted_scores df (used_weights df weights additional_metrics))))))
          \<and> map Rank (entries frame) = [1..<Suc (length (rows df))]"
proof -
  let ?nw = "used_weights df weights additional_metrics"
  let ?sorted = "sort_key (\<lambda>(r, s, p). - s)
                (zip (rows df) (zip (weighted_scores df ?nw)
                       (map (\<lambda>p. p * 100) (rank_pct (weighted_scores df ?nw)))))"
  let ?frame = "\<lparr>score_column = map (\<lambda>c. if c = CHR 0x20 then CHR ''_'' else c) category,
                 entries = map2 (\<lambda>i (r, s, p). \<lparr>Rank = i, cells = r, score = s, percentile = p\<rparr>)
                             [1..<Suc (length ?sorted)] ?sorted\<rparr>"
  have c: "calculate_category_score df category weights additional_metrics = Inr (?frame, ?nw)"
    using assms
    by (simp add: calculate_category_score_def used_weights_def filtered_weights_def
          combined_weights_def scorable_def Let_def)
  have len: "length ?sorted = length (rows df)" by simp
  have "map (\<lambda>e. (cells e, score e, percentile e)) (entries ?frame)
      = map snd (zip [1..<Suc (length ?sorted)] ?sorted)"
    by (simp add: case_prod_unfold del: sort_key_simps)
  also have "\<dots> = ?sorted" by (rule numbered_rows)
  finally have e: "map (\<lambda>e. (cells e, score e, percentile e)) (entries ?frame) = ?sorted" .
  have "map Rank (entries ?frame) = map fst (zip [1..<Suc (length ?sorted)] ?sorted)"
    by (simp add: case_prod_unfold)
  also have "\<dots> = [1..<Suc (length ?sorted)]" by (rule numbered_rows)
  finally have r: "map Rank (entries ?frame) = [1..<Suc (length (rows df))]" using len by simp
  from c e r show ?thesis by blast
qed








lemma calculate_Inr_cases:
  assumes "calculate_category_score df category weights additional_metrics = Inr (frame, used)"
  shows "scorable df weights additional_metrics"
proof (rule ccontr)
  assume "\<not> scorable df weights additional_metrics"
  then have "isl (calculate_category_score df category weights additional_metrics)"
    by (auto simp: calculate_category_score_def scorable_def filtered_weights_def
          combined_weights_def Let_def)
  with assms show False by simp
qed




section \<open>Percentiles\<close>

lemma entries_zip:
  assumes "calculate_category_score df category weights additional_metrics = Inr (frame, used)"
  shows "used = used_weights df weights additional_metrics"
    and "mset (map (\<lambda>e. (cells e, score e, percentile e)) (entries frame))
          = mset (zip (rows df)
                  (zip (weighted_scores df used)
                       (map (\<lambda>p. p * 100) (rank_pct (weighted_scores df used)))))"
    and "mset (map score (entries frame)) = mset (weighted_scores df used)"
proof -
  from calculate_Inr[OF calculate_Inr_cases[OF assms], of category] assms
  have u: "used = used_weights df weights additional_metrics"
    and s: "map (\<lambda>e. (cells e, score e, percentile e)) (entries frame)
            = sort_key (\<lambda>(r, s, p). - s)
                (zip (rows df)
                  (zip (weighted_scores df used)
                       (map (\<lambda>p. p * 100) (rank_pct (weighted_scores df used)))))"
    by auto
  show "used = used_weights df weights additional_metrics" by (rule u)
  let ?S = "weighted_scores df used"
  let ?Z = "zip (rows df) (zip ?S (map (\<lambda>p. p * 100) (rank_pct ?S)))"
  show m: "mset (map (\<lambda>e. (cells e, score e, percentile e)) (entries frame)) = mset ?Z"
    unfolding s by simp
  have "map score (entries frame)
      = map (\<lambda>t. fst (snd t)) (map (\<lambda>e. (cells e, score e, percentile e)) (entries frame))"
    by simp
  then have "mset (map score (entries frame))
      = image_mset (\<lambda>t. fst (snd t)) (mset (map (\<lambda>e. (cells e, score e, percentile e)) (entries frame)))"
    by (metis mset_map)
  also have "\<dots> = mset (map (\<lambda>t. fst (snd t)) ?Z)" unfolding m by simp
  also have "map (\<lambda>t. fst (snd t)) ?Z = map fst (map snd ?Z)"
    unfolding map_map comp_def ..
  also have "map snd ?Z = zip ?S (map (\<lambda>p. p * 100) (rank_pct ?S))"
    by (rule map_snd_zip) simp
  also have "map fst (zip ?S (map (\<lambda>p. p * 100) (rank_pct ?S))) = ?S"
    by (rule map_fst_zip) simp
  finally show "mset (map score (entries frame)) = mset ?S" .
qed

lemma entry_origin:
  assumes "calculate_category_score df category weights additional_metrics = Inr (frame, used)"
    and "e \<in> set (entries frame)"
  shows "\<exists>i < length (rows df). cells e = rows df ! i \<and> score e = weighted_scores df used ! i \<and>
           percentile e = rank_pct (weighted_scores df used) ! i * 100"
proof -
  let ?S = "weighted_scores df used"
  let ?Z = "zip (rows df) (zip ?S (map (\<lambda>p. p * 100) (rank_pct ?S)))"
  have t: "(cells e, score e, percentile e)
       \<in> set (map (\<lambda>e. (cells e, score e, percentile e)) (entries frame))"
    using assms(2) by (simp add: image_iff) blast
  have eq: "set (map (\<lambda>e. (cells e, score e, percentile e)) (entries frame)) = set ?Z"
    by (rule mset_eq_setD[OF entries_zip(2)[OF assms(1)]])
  from t have "(cells e, score e, percentile e) \<in> set ?Z" unfolding eq .
  then obtain i where i: "i < length ?Z" "?Z ! i = (cells e, score e, percentile e)"
    unfolding in_set_conv_nth by blast
  from i(1) have l: "i < length (rows df)" by simp
  from i(2) l have "rows df ! i = cells e" "?S ! i = score e"
    "rank_pct ?S ! i * 100 = percentile e"
    by simp_all
  with l show ?thesis by auto
qed

lemma count_mset:
  assumes "mset xs = mset ys"
  shows "length (filter P xs) = length (filter P ys)"
proof -
  have "size (mset (filter P xs)) = size (mset (filter P ys))"
    unfolding mset_filter assms ..
  then show ?thesis by (simp only: size_mset)
qed

lemma average_rank_pct_mset:
  assumes "mset xs = mset ys"
  shows "average_rank_pct xs x = average_rank_pct ys x"
  unfolding average_rank_pct_def count_below_def count_equal_def
  by (simp only: count_mset[OF assms] mset_eq_length[OF assms])

lemma rank_pct_nth:
  "i < length xs \<Longrightarrow> rank_pct xs ! i * 100 = average_rank_pct xs (xs ! i)"
  by (simp add: rank_pct_def average_rank_pct_def count_below_def count_equal_def)

lemma goals_scores:
  "weighted_scores (frame_of [''Age'', ''Appearances'', ''Goal''] [[24, 9, 1], [27, 9, 2], [30, 9, 3]]) [(''Goal'', 1)] = [0, 50, 100]"
  by (simp add: weighted_scores_def frame_of_def column_def normalized_values_def negative_metrics_def)

lemma goals_rank: "rank_pct [0, 50, 100] = [1 / 3, 2 / 3, 1]"
  by (simp add: rank_pct_def)

lemma goals_example:
  "map (\<lambda>e. (Rank e, cells e ''Goal'', score e, percentile e))
     (entries (fst (projr (calculate_category_score (frame_of [''Age'', ''Appearances'', ''Goal''] [[24, 9, 1], [27, 9, 2], [30, 9, 3]])
        ''Attacking Score'' [(''Goal'', 1)] None))))
   = [(1, 3, 100, 100), (2, 2, 50, 200 / 3), (3, 1, 0, 100 / 3)]"
  by (simp add: calculate_category_score_def goals_scores goals_rank Let_def)
    (simp add: frame_of_def selected_columns_def)

lemma goals_Inr:
  "calculate_category_score (frame_of [''Age'', ''Appearances'', ''Goal''] [[24, 9, 1], [27, 9, 2], [30, 9, 3]]) ''Attacking Score''
      [(''Goal'', 1)] None
   = Inr (fst (projr (calculate_category_score (frame_of [''Age'', ''Appearances'', ''Goal''] [[24, 9, 1], [27, 9, 2], [30, 9, 3]])
             ''Attacking Score'' [(''Goal'', 1)] None)),
          snd (projr (calculate_category_score (frame_of [''Age'', ''Appearances'', ''Goal''] [[24, 9, 1], [27, 9, 2], [30, 9, 3]])
             ''Attacking Score'' [(''Goal'', 1)] None)))"
proof -
  have "scorable (frame_of [''Age'', ''Appearances'', ''Goal''] [[24, 9, 1], [27, 9, 2], [30, 9, 3]]) [(''Goal'', 1)] None"
    by (simp add: scorable_def frame_of_def filtered_weights_def combined_weights_def
          selected_columns_def)
  from calculate_Inr[OF this, of "''Attacking Score''"] show ?thesis by auto
qed

lemma goals_top:
  "entries (fst (projr (calculate_category_score (frame_of [''Age'', ''Appearances'', ''Goal''] [[24, 9, 1], [27, 9, 2], [30, 9, 3]])
        ''Attacking Score'' [(''Goal'', 1)] None))) \<noteq> []"
  "score (hd (entries (fst (projr (calculate_category_score (frame_of [''Age'', ''Appearances'', ''Goal''] [[24, 9, 1], [27, 9, 2], [30, 9, 3]])
        ''Attacking Score'' [(''Goal'', 1)] None))))) = 100"
  "percentile (hd (entries (fst (projr (calculate_category_score (frame_of [''Age'', ''Appearances'', ''Goal''] [[24, 9, 1], [27, 9, 2], [30, 9, 3]])
        ''Attacking Score'' [(''Goal'', 1)] None))))) = 100"
  "map score (entries (fst (projr (calculate_category_score (frame_of [''Age'', ''Appearances'', ''Goal''] [[24, 9, 1], [27, 9, 2], [30, 9, 3]])
        ''Attacking Score'' [(''Goal'', 1)] None)))) = [100, 50, 0]"
proof -
  let ?es = "entries (fst (projr (calculate_category_score (frame_of [''Age'', ''Appearances'', ''Goal''] [[24, 9, 1], [27, 9, 2], [30, 9, 3]])
        ''Attacking Score'' [(''Goal'', 1)] None)))"
  let ?f = "\<lambda>e. (Rank e, cells e ''Goal'', score e, percentile e)"
  note g = goals_example
  show ne: "?es \<noteq> []" using g by auto
  have "?f (hd ?es) = hd (map ?f ?es)" using ne by (simp add: hd_map)
  also have "\<dots> = (1, 3, 100, 100)" unfolding g by simp
  finally show "score (hd ?es) = 100" "percentile (hd ?es) = 100" by simp_all
  have "map score ?es = map (\<lambda>t. fst (snd (snd t))) (map ?f ?es)" by simp
  also have "\<dots> = [100, 50, 0]" unfolding g by simp
  finally show "map score ?es = [100, 50, 0]" .
qed

text \<open>
  Claim C1, as the code has it. The percentile column is \<open>rank(pct=True) * 100\<close>: for every
  player of a scored request it is the average rank of the player's composite score divided
  by the number of players, times 100. That is the claim's percent-rank (players strictly
  below, over all players, times 100) plus the term for the players with an equal score,
  the player included. For the Goal values 1, 2, 3 with weight 1 on Goal the normalised
  scores are 0, 50, 100 and the percentiles 33.33, 66.67, 100, listed by rank as
  100, 66.67, 33.33.
\<close>

theorem calculate_category_score_percentile:
  "(calculate_category_score df category weights additional_metrics = Inr (frame, used) \<longrightarrow>
     (\<forall>e \<in> set (entries frame).
        percentile e = average_rank_pct (map score (entries frame)) (score e) \<and>
        percentile e = percent_rank_spec (map score (entries frame)) (score e) +
           (of_nat (count_equal (map score (entries frame)) (score e)) + 1) / 2
             / of_nat (length (rows df)) * 100))
   \<and> map (\<lambda>e. (Rank e, cells e ''Goal'', score e, percentile e))
        (entries (fst (projr (calculate_category_score (frame_of [''Age'', ''Appearances'', ''Goal''] [[24, 9, 1], [27, 9, 2], [30, 9, 3]])
           ''Attacking Score'' [(''Goal'', 1)] None))))
      = [(1, 3, 100, 100), (2, 2, 50, 200 / 3), (3, 1, 0, 100 / 3)]"
proof (rule conjI)
  show "calculate_category_score df category weights additional_metrics = Inr (frame, used) \<longrightarrow>
     (\<forall>e \<in> set (entries frame).
        percentile e = average_rank_pct (map score (entries frame)) (score e) \<and>
        percentile e = percent_rank_spec (map score (entries frame)) (score e) +
           (of_nat (count_equal (map score (entries frame)) (score e)) + 1) / 2
             / of_nat (length (rows df)) * 100)"
  proof (intro impI ballI)
    fix e
    assume c: "calculate_category_score df category weights additional_metrics = Inr (frame, used)"
      and e: "e \<in> set (entries frame)"
    let ?S = "weighted_scores df used"
    from entry_origin[OF c e] obtain i where i: "i < length (rows df)"
      "score e = ?S ! i" "percentile e = rank_pct ?S ! i * 100" by blast
    have m: "mset (map score (entries frame)) = mset ?S" by (rule entries_zip(3)[OF c])
    have "percentile e = average_rank_pct ?S (score e)"
      using i by (simp add: rank_pct_nth)
    then have a: "percentile e = average_rank_pct (map score (entries frame)) (score e)"
      using average_rank_pct_mset[OF m] by simp
    have l: "length (map score (entries frame)) = length (rows df)"
      using mset_eq_length[OF m] by simp
    have "average_rank_pct (map score (entries frame)) (score e)
        = percent_rank_spec (map score (entries frame)) (score e) +
             (of_nat (count_equal (map score (entries frame)) (score e)) + 1) / 2
               / of_nat (length (rows df)) * 100"
      unfolding average_rank_pct_def percent_rank_spec_def l
      by (simp add: add_divide_distrib distrib_right)
    with a show "percentile e = average_rank_pct (map score (entries frame)) (score e) \<and>
          percentile e = percent_rank_spec (map score (entries frame)) (score e) +
             (of_nat (count_equal (map score (entries frame)) (score e)) + 1) / 2
               / of_nat (length (rows df)) * 100"
      by simp
  qed
  show "map (\<lambda>e. (Rank e, cells e ''Goal'', score e, percentile e))
        (entries (fst (projr (calculate_category_score (frame_of [''Age'', ''Appearances'', ''Goal''] [[24, 9, 1], [27, 9, 2], [30, 9, 3]])
           ''Attacking Score'' [(''Goal'', 1)] None))))
      = [(1, 3, 100, 100), (2, 2, 50, 200 / 3), (3, 1, 0, 100 / 3)]"
    by (rule goals_example)
qed

theorem calculate_category_score_percentile_witness:
  "percentile (hd (entries (fst (projr (calculate_category_score (frame_of [''Age'', ''Appearances'', ''Goal''] [[24, 9, 1], [27, 9, 2], [30, 9, 3]])
        ''Attacking Score'' [(''Goal'', 1)] None)))))
     = average_rank_pct [100, 50, 0] 100
   \<and> average_rank_pct [100, 50, 0] 100 = 100"
proof -
  let ?c = "calculate_category_score (frame_of [''Age'', ''Appearances'', ''Goal''] [[24, 9, 1], [27, 9, 2], [30, 9, 3]])
        ''Attacking Score'' [(''Goal'', 1)] None"
  have h: "hd (entries (fst (projr ?c))) \<in> set (entries (fst (projr ?c)))"
    using goals_top(1) by simp
  from calculate_category_score_percentile
    [of "frame_of [''Age'', ''Appearances'', ''Goal''] [[24, 9, 1], [27, 9, 2], [30, 9, 3]]" "''Attacking Score''" "[(''Goal'', 1)]" None
        "fst (projr ?c)" "snd (projr ?c)"] goals_Inr h
  have "percentile (hd (entries (fst (projr ?c))))
      = average_rank_pct (map score (entries (fst (projr ?c)))) (score (hd (entries (fst (projr ?c)))))"
    by blast
  then have "percentile (hd (entries (fst (projr ?c)))) = average_rank_pct [100, 50, 0] 100"
    unfolding goals_top(2,4) .
  moreover have "average_rank_pct [100, 50, 0] 100 = 100"
    by (simp add: average_rank_pct_def count_below_def count_equal_def)
  ultimately show ?thesis by simp
qed

text \<open>
  The claim as stated fails: for the Goal values 1, 2, 3 with weight 1 on Goal, the top
  player (score 100) gets percentile 100, while two of three players are strictly below,
  which the claim's formula turns into 66.67.
\<close>

theorem calculate_category_score_percentile_counterexample:
  "map score (entries (fst (projr (calculate_category_score (frame_of [''Age'', ''Appearances'', ''Goal''] [[24, 9, 1], [27, 9, 2], [30, 9, 3]])
        ''Attacking Score'' [(''Goal'', 1)] None)))) = [100, 50, 0]
   \<and> percentile (hd (entries (fst (projr (calculate_category_score (frame_of [''Age'', ''Appearances'', ''Goal''] [[24, 9, 1], [27, 9, 2], [30, 9, 3]])
        ''Attacking Score'' [(''Goal'', 1)] None))))) = 100
   \<and> percent_rank_spec
        (map score (entries (fst (projr (calculate_category_score (frame_of [''Age'', ''Appearances'', ''Goal''] [[24, 9, 1], [27, 9, 2], [30, 9, 3]])
           ''Attacking Score'' [(''Goal'', 1)] None)))))
        (score (hd (entries (fst (projr (calculate_category_score (frame_of [''Age'', ''Appearances'', ''Goal''] [[24, 9, 1], [27, 9, 2], [30, 9, 3]])
           ''Attacking Score'' [(''Goal'', 1)] None)))))) = 200 / 3
   \<and> percentile (hd (entries (fst (projr (calculate_category_score (frame_of [''Age'', ''Appearances'', ''Goal''] [[24, 9, 1], [27, 9, 2], [30, 9, 3]])
        ''Attacking Score'' [(''Goal'', 1)] None)))))
       \<noteq> percent_rank_spec
        (map score (entries (fst (projr (calculate_category_score (frame_of [''Age'', ''Appearances'', ''Goal''] [[24, 9, 1], [27, 9, 2], [30, 9, 3]])
           ''Attacking Score'' [(''Goal'', 1)] None)))))
        (score (hd (entries (fst (projr (calculate_category_score (frame_of [''Age'', ''Appearances'', ''Goal''] [[24, 9, 1], [27, 9, 2], [30, 9, 3]])
           ''Attacking Score'' [(''Goal'', 1)] None))))))"
  unfolding goals_top(2,3,4)
  by (simp add: percent_rank_spec_def count_below_def)

section \<open>Weight normalisation\<close>

lemma sum_list_divide:
  "sum_list (map (\<lambda>kv. snd kv / t) av) = sum_list (map snd av) / (t::rat)"
  by (induction av) (simp_all add: add_divide_distrib)

lemma used_weights_positive:
  assumes "0 < sum_list (map snd (filtered_weights df weights additional_metrics))"
  shows "used_weights df weights additional_metrics
           = map (\<lambda>(k, v). (k, v / sum_list (map snd (filtered_weights df weights additional_metrics))))
               (filtered_weights df weights additional_metrics)"
    and "sum_list (map snd (used_weights df weights additional_metrics)) = 1"
proof -
  let ?av = "filtered_weights df weights additional_metrics"
  let ?t = "sum_list (map snd ?av)"
  show u: "used_weights df weights additional_metrics = map (\<lambda>(k, v). (k, v / ?t)) ?av"
    using assms by (simp add: used_weights_def Let_def)
  have "map snd (map (\<lambda>(k, v). (k, v / ?t)) ?av) = map (\<lambda>kv. snd kv / ?t) ?av"
    by (simp add: case_prod_unfold)
  then have "sum_list (map snd (used_weights df weights additional_metrics)) = ?t / ?t"
    unfolding u by (simp only: sum_list_divide)
  then show "sum_list (map snd (used_weights df weights additional_metrics)) = 1"
    using assms by simp
qed

lemma used_weights_nonpositive:
  "sum_list (map snd (filtered_weights df weights additional_metrics)) \<le> 0 \<Longrightarrow>
     used_weights df weights additional_metrics = filtered_weights df weights additional_metrics"
  by (simp add: used_weights_def Let_def)

lemma fold_zero_weights:
  assumes "\<forall>kv \<in> set nw. snd kv = 0"
  shows "fold (\<lambda>(metric, weight) acc.
             if metric \<in> set (columns df) then
               map2 (+) acc
                 (map (\<lambda>v. v * weight)
                    (normalized_values (metric \<in> set negative_metrics) (column df metric)))
             else acc) nw (replicate (length (rows df)) 0)
         = replicate (length (rows df)) (0::rat)"
  using assms
proof (induction nw)
  case Nil
  then show ?case by simp
next
  case (Cons kv nw)
  obtain m w where kv: "kv = (m, w)" by (cases kv)
  with Cons.prems have w: "w = 0" by simp
  have z: "map2 (+) (replicate (length (rows df)) (0::rat))
             (map (\<lambda>v. 0)
                (normalized_values (m \<in> set negative_metrics) (column df m)))
           = replicate (length (rows df)) 0"
    by (rule nth_equalityI) simp_all
  from Cons show ?case by (simp add: kv w z)
qed

lemma zero_weights_scores:
  "\<forall>kv \<in> set nw. snd kv = 0 \<Longrightarrow> weighted_scores df nw = replicate (length (rows df)) 0"
  unfolding weighted_scores_def by (rule fold_zero_weights)

lemma nonneg_sum_zero:
  assumes "\<forall>w \<in> snd ` set av. (0::rat) \<le> w" "sum_list (map snd av) = 0"
  shows "\<forall>kv \<in> set av. snd kv = 0"
proof -
  have "(sum_list (map snd av) = 0) = (\<forall>x \<in> set (map snd av). x = 0)"
    by (rule sum_list_nonneg_eq_0_iff) (use assms(1) in auto)
  with assms(2) show ?thesis by auto
qed

text \<open>
  Claim C6, as the code has it. For a request that reaches the scoring (non-empty
  population, some weight on a column of the frame, none on a text column, the selected
  columns present) the function returns a result and the
  weights it reports are: each filtered weight divided by the filtered total, summing to 1,
  when the total is positive; the filtered weights unmodified when the total is 0 (or
  negative). When the total is 0 and no filtered weight is negative, every composite score
  is 0.
\<close>

theorem calculate_category_score_weights:
  "scorable df weights additional_metrics \<longrightarrow>
     (\<exists>frame. calculate_category_score df category weights additional_metrics
                 = Inr (frame, used_weights df weights additional_metrics) \<and>
        (sum_list (map snd (filtered_weights df weights additional_metrics)) = 0 \<and>
         (\<forall>w \<in> snd ` set (filtered_weights df weights additional_metrics). 0 \<le> w) \<longrightarrow>
           (\<forall>e \<in> set (entries frame). score e = 0)))
     \<and> (0 < sum_list (map snd (filtered_weights df weights additional_metrics)) \<longrightarrow>
          used_weights df weights additional_metrics
            = map (\<lambda>(k, v). (k, v / sum_list (map snd (filtered_weights df weights additional_metrics))))
                (filtered_weights df weights additional_metrics) \<and>
          sum_list (map snd (used_weights df weights additional_metrics)) = 1)
     \<and> (sum_list (map snd (filtered_weights df weights additional_metrics)) \<le> 0 \<longrightarrow>
          used_weights df weights additional_metrics
            = filtered_weights df weights additional_metrics)"
proof (rule impI)
  let ?av = "filtered_weights df weights additional_metrics"
  let ?u = "used_weights df weights additional_metrics"
  assume a: "scorable df weights additional_metrics"
  from calculate_Inr[OF a, of category] obtain frame where
    f: "calculate_category_score df category weights additional_metrics = Inr (frame, ?u)"
    by blast
  have zero: "\<forall>e \<in> set (entries frame). score e = 0"
    if z: "sum_list (map snd ?av) = 0 \<and> (\<forall>w \<in> snd ` set ?av. 0 \<le> w)"
  proof
    fix e assume e: "e \<in> set (entries frame)"
    from z have u: "?u = ?av" by (simp add: used_weights_nonpositive)
    from z have "\<forall>kv \<in> set ?av. snd kv = 0" using nonneg_sum_zero by blast
    then have s: "weighted_scores df ?u = replicate (length (rows df)) 0"
      unfolding u by (rule zero_weights_scores)
    from entry_origin[OF f e] obtain i where "i < length (rows df)"
      "score e = weighted_scores df ?u ! i" by blast
    then show "score e = 0" unfolding s by simp
  qed
  have first: "\<exists>frame. calculate_category_score df category weights additional_metrics
                 = Inr (frame, ?u) \<and>
        (sum_list (map snd ?av) = 0 \<and> (\<forall>w \<in> snd ` set ?av. 0 \<le> w) \<longrightarrow>
           (\<forall>e \<in> set (entries frame). score e = 0))"
    using f zero by blast
  have second: "0 < sum_list (map snd ?av) \<longrightarrow>
          ?u = map (\<lambda>(k, v). (k, v / sum_list (map snd ?av))) ?av \<and>
          sum_list (map snd ?u) = 1"
    using used_weights_positive[of df weights additional_metrics] by blast
  have third: "sum_list (map snd ?av) \<le> 0 \<longrightarrow> ?u = ?av"
    using used_weights_nonpositive[of df weights additional_metrics] by blast
  from first second third show
    "(\<exists>frame. calculate_category_score df category weights additional_metrics
                 = Inr (frame, ?u) \<and>
        (sum_list (map snd ?av) = 0 \<and> (\<forall>w \<in> snd ` set ?av. 0 \<le> w) \<longrightarrow>
           (\<forall>e \<in> set (entries frame). score e = 0)))
     \<and> (0 < sum_list (map snd ?av) \<longrightarrow>
          ?u = map (\<lambda>(k, v). (k, v / sum_list (map snd ?av))) ?av \<and>
          sum_list (map snd ?u) = 1)
     \<and> (sum_list (map snd ?av) \<le> 0 \<longrightarrow> ?u = ?av)"
    by (intro conjI)
qed

text \<open>
  The claim as stated fails: the weights 1 on Goal and -1 on Assist have total 0, are used
  unmodified, and give the two players the scores 100 and -100.
\<close>

lemma mixed_scores:
  "weighted_scores (frame_of [''Age'', ''Appearances'', ''Goal'', ''Assist''] [[24, 9, 1, 2], [27, 9, 2, 1]])
     [(''Goal'', 1), (''Assist'', - 1)] = [- 100, 100]"
  by (simp add: weighted_scores_def frame_of_def column_def normalized_values_def negative_metrics_def)

lemma mixed_rank: "rank_pct [- 100, 100] = [1 / 2, 1]"
  by (simp add: rank_pct_def)

theorem calculate_category_score_zero_total_counterexample:
  "sum_list (map snd (filtered_weights (frame_of [''Age'', ''Appearances'', ''Goal'', ''Assist''] [[24, 9, 1, 2], [27, 9, 2, 1]])
       [(''Goal'', 1), (''Assist'', - 1)] None)) = 0
   \<and> snd (projr (calculate_category_score (frame_of [''Age'', ''Appearances'', ''Goal'', ''Assist''] [[24, 9, 1, 2], [27, 9, 2, 1]])
        ''Attacking Score'' [(''Goal'', 1), (''Assist'', - 1)] None))
       = [(''Goal'', 1), (''Assist'', - 1)]
   \<and> map score (entries (fst (projr (calculate_category_score
        (frame_of [''Age'', ''Appearances'', ''Goal'', ''Assist''] [[24, 9, 1, 2], [27, 9, 2, 1]])
        ''Attacking Score'' [(''Goal'', 1), (''Assist'', - 1)] None)))) = [100, - 100]"
proof -
  have f: "filtered_weights (frame_of [''Age'', ''Appearances'', ''Goal'', ''Assist''] [[24, 9, 1, 2], [27, 9, 2, 1]])
       [(''Goal'', 1), (''Assist'', - 1)] None = [(''Goal'', 1), (''Assist'', - 1)]"
    by (simp add: filtered_weights_def combined_weights_def frame_of_def)
  have c: "map (\<lambda>e. (Rank e, score e))
     (entries (fst (projr (calculate_category_score (frame_of [''Age'', ''Appearances'', ''Goal'', ''Assist''] [[24, 9, 1, 2], [27, 9, 2, 1]])
        ''Attacking Score'' [(''Goal'', 1), (''Assist'', - 1)] None))))
      = [(1, 100), (2, - 100)]
    \<and> snd (projr (calculate_category_score (frame_of [''Age'', ''Appearances'', ''Goal'', ''Assist''] [[24, 9, 1, 2], [27, 9, 2, 1]])
        ''Attacking Score'' [(''Goal'', 1), (''Assist'', - 1)] None))
       = [(''Goal'', 1), (''Assist'', - 1)]"
    by (simp add: calculate_category_score_def mixed_scores mixed_rank Let_def)
      (simp add: frame_of_def selected_columns_def)
  have "map score (entries (fst (projr (calculate_category_score
        (frame_of [''Age'', ''Appearances'', ''Goal'', ''Assist''] [[24, 9, 1, 2], [27, 9, 2, 1]])
        ''Attacking Score'' [(''Goal'', 1), (''Assist'', - 1)] None))))
     = map snd (map (\<lambda>e. (Rank e, score e))
     (entries (fst (projr (calculate_category_score (frame_of [''Age'', ''Appearances'', ''Goal'', ''Assist''] [[24, 9, 1, 2], [27, 9, 2, 1]])
        ''Attacking Score'' [(''Goal'', 1), (''Assist'', - 1)] None)))))"
    by simp
  also have "\<dots> = [100, - 100]" using c by simp
  finally show ?thesis using c f by simp
qed

theorem calculate_category_score_weights_witness:
  "snd (projr (calculate_category_score (frame_of [''Age'', ''Appearances'', ''Goal'', ''Assist''] [[24, 9, 1, 2], [27, 9, 2, 1]])
        ''Attacking Score'' [(''Goal'', 2), (''Assist'', 2), (''Saves'', 5)] None))
     = [(''Goal'', 1 / 2), (''Assist'', 1 / 2)]
   \<and> sum_list (map snd (used_weights (frame_of [''Age'', ''Appearances'', ''Goal'', ''Assist''] [[24, 9, 1, 2], [27, 9, 2, 1]])
        [(''Goal'', 2), (''Assist'', 2), (''Saves'', 5)] None)) = 1
   \<and> snd (projr (calculate_category_score (frame_of [''Age'', ''Appearances'', ''Goal'', ''Assist''] [[24, 9, 1, 2], [27, 9, 2, 1]])
        ''Attacking Score'' [(''Goal'', 0), (''Assist'', 0)] None))
     = [(''Goal'', 0), (''Assist'', 0)]
   \<and> map score (entries (fst (projr (calculate_category_score
        (frame_of [''Age'', ''Appearances'', ''Goal'', ''Assist''] [[24, 9, 1, 2], [27, 9, 2, 1]])
        ''Attacking Score'' [(''Goal'', 0), (''Assist'', 0)] None)))) = [0, 0]"
proof -
  let ?F = "frame_of [''Age'', ''Appearances'', ''Goal'', ''Assist''] [[24, 9, 1, 2], [27, 9, 2, 1]]"
  let ?W = "[(''Goal'', 2), (''Assist'', 2), (''Saves'', 5::rat)]"
  let ?Z = "[(''Goal'', 0), (''Assist'', 0::rat)]"
  have len: "length (rows ?F) = 2" by (simp add: frame_of_def)
  have r: "scorable ?F ?W None" "scorable ?F ?Z None"
    by (simp_all add: scorable_def frame_of_def filtered_weights_def combined_weights_def
          selected_columns_def)
  have fw: "filtered_weights ?F ?W None = [(''Goal'', 2), (''Assist'', 2)]"
    by (simp add: filtered_weights_def combined_weights_def frame_of_def)
  have fz: "filtered_weights ?F ?Z None = ?Z"
    by (simp add: filtered_weights_def combined_weights_def frame_of_def)
  from calculate_category_score_weights[of ?F ?W None "''Attacking Score''"] r(1)
  obtain frame where
    w1: "calculate_category_score ?F ''Attacking Score'' ?W None
           = Inr (frame, used_weights ?F ?W None)"
    and w2: "used_weights ?F ?W None = [(''Goal'', 1 / 2), (''Assist'', 1 / 2)]"
    and w3: "sum_list (map snd (used_weights ?F ?W None)) = 1"
    unfolding fw by auto
  from calculate_category_score_weights[of ?F ?Z None "''Attacking Score''"] r(2)
  obtain frame0 where
    z1: "calculate_category_score ?F ''Attacking Score'' ?Z None
           = Inr (frame0, used_weights ?F ?Z None)"
    and z2: "\<forall>e \<in> set (entries frame0). score e = 0"
    and z3: "used_weights ?F ?Z None = ?Z"
    unfolding fz by auto
  have "length (map score (entries frame0)) = length (rows ?F)"
    using mset_eq_length[OF entries_zip(3)[OF z1]] by simp
  then have l0: "length (map score (entries frame0)) = 2" using len by simp
  have "map score (entries frame0) = replicate (length (map score (entries frame0))) 0"
    by (rule replicate_length_same[symmetric]) (use z2 in auto)
  then have s0: "map score (entries frame0) = [0, 0]"
    unfolding l0 by (simp add: numeral_2_eq_2)
  show ?thesis unfolding w1 z1 by (simp add: w2 w3 z3 s0)
qed

section \<open>Contribution breakdown\<close>

lemma update_append: "k \<notin> fst ` set al \<Longrightarrow> AList.update k v al = al @ [(k, v)]"
  by (induction al) auto

lemma fold_contrib_map:
  assumes "distinct (map fst nw)"
    and "\<forall>m \<in> fst ` set nw. m \<in> C \<and> m \<notin> fst ` set acc"
  shows "fold (\<lambda>(m, w) acc. if m \<in> C then dict_set acc m (g m w) else acc) nw acc
           = acc @ map (\<lambda>(m, w). (m, g m w)) nw"
  using assms
proof (induction nw arbitrary: acc)
  case Nil
  then show ?case by simp
next
  case (Cons kv nw)
  obtain m w where kv: "kv = (m, w)" by (cases kv)
  from Cons.prems kv have m: "m \<in> C" "m \<notin> fst ` set acc" "m \<notin> fst ` set nw"
    and d: "distinct (map fst nw)"
    by auto
  have s: "dict_set acc m (g m w) = acc @ [(m, g m w)]"
    unfolding dict_set_def using m(2) by (rule update_append)
  have "\<forall>k \<in> fst ` set nw. k \<in> C \<and> k \<notin> fst ` set (acc @ [(m, g m w)])"
    using Cons.prems(2) m(3) by auto
  from Cons.IH[OF d this] show ?case by (simp add: kv m(1) s)
qed

lemma list_ex_keys:
  "list_ex (\<lambda>(m, w). Q m) xs = (\<exists>m \<in> set (map fst xs). Q m)"
  by (induction xs) auto

lemma get_metric_contributions_unfold:
  "player_idx < length (rows df) \<Longrightarrow>
   \<not> list_ex (\<lambda>(metric, w). metric \<in> set (text_columns df))
        (used_weights df weights additional_metrics) \<Longrightarrow>
   get_metric_contributions df player_idx category weights additional_metrics
     = Inr (fold (\<lambda>(m, w) acc.
                    if m \<in> set (columns df) then dict_set acc m (contribution_of df player_idx m w)
                    else acc)
                 (used_weights df weights additional_metrics) [])"
  unfolding get_metric_contributions_def used_weights_def filtered_weights_def
    combined_weights_def contribution_of_def Let_def
  by simp

lemma distinct_fold_update:
  "distinct (map fst d) \<Longrightarrow>
     distinct (map fst (fold (\<lambda>(k, v) acc. AList.update k v acc) e d))"
proof (induction e arbitrary: d)
  case Nil
  then show ?case by simp
next
  case (Cons kv e)
  obtain k v where kv: "kv = (k, v)" by (cases kv)
  have "distinct (map fst (AList.update k v d))" using Cons.prems by (rule distinct_update)
  from Cons.IH[OF this] show ?case by (simp add: kv)
qed

lemma distinct_combined_weights:
  "distinct (map fst weights) \<Longrightarrow> distinct (map fst (combined_weights weights additional_metrics))"
  by (auto simp: combined_weights_def dict_update_def dict_set_def distinct_fold_update
        split: option.splits)

lemma map_fst_used_weights:
  "map fst (used_weights df weights additional_metrics)
     = map fst (filtered_weights df weights additional_metrics)"
  by (simp add: used_weights_def Let_def case_prod_unfold comp_def)

lemma used_weights_keys:
  "fst ` set (used_weights df weights additional_metrics) \<subseteq> set (columns df)"
proof -
  have "set (map fst (used_weights df weights additional_metrics)) \<subseteq> set (columns df)"
    unfolding map_fst_used_weights by (auto simp: filtered_weights_def)
  then show ?thesis by simp
qed

lemma distinct_used_weights:
  assumes "distinct (map fst weights)"
  shows "distinct (map fst (used_weights df weights additional_metrics))"
  unfolding map_fst_used_weights filtered_weights_def
  using distinct_combined_weights[OF assms] by (rule distinct_map_filter)

lemma normalized_values_nth:
  "i < length xs \<Longrightarrow>
     normalized_values neg xs ! i =
       (if Max (set xs) = Min (set xs) then 50
        else if neg then 100 - ((xs ! i - Min (set xs)) / (Max (set xs) - Min (set xs)) * 100)
        else (xs ! i - Min (set xs)) / (Max (set xs) - Min (set xs)) * 100)"
  by (auto simp: normalized_values_def Let_def)

lemma contribution_of_fields:
  assumes "i < length (rows df)"
  shows "raw_value (contribution_of df i m w) = (rows df ! i) m"
    and "normalized_score (contribution_of df i m w)
           = normalized_values (m \<in> set negative_metrics) (column df m) ! i"
    and "weight (contribution_of df i m w) = w"
    and "weighted_contribution (contribution_of df i m w)
           = normalized_values (m \<in> set negative_metrics) (column df m) ! i * w"
proof -
  have c: "column df m ! i = (rows df ! i) m" using assms by (simp add: column_def)
  have l: "i < length (column df m)" using assms by simp
  show "raw_value (contribution_of df i m w) = (rows df ! i) m"
    by (simp add: contribution_of_def Let_def)
  show "normalized_score (contribution_of df i m w)
           = normalized_values (m \<in> set negative_metrics) (column df m) ! i"
    unfolding normalized_values_nth[OF l] c by (simp add: contribution_of_def Let_def)
  show "weight (contribution_of df i m w) = w"
    by (simp add: contribution_of_def Let_def)
  show "weighted_contribution (contribution_of df i m w)
           = normalized_values (m \<in> set negative_metrics) (column df m) ! i * w"
    unfolding normalized_values_nth[OF l] c by (simp add: contribution_of_def Let_def)
qed

lemma fold_scores_nth:
  assumes "length acc = length (rows df)" "i < length (rows df)"
  shows "fold (\<lambda>(metric, weight) acc.
             if metric \<in> set (columns df) then
               map2 (+) acc
                 (map (\<lambda>v. v * weight)
                    (normalized_values (metric \<in> set negative_metrics) (column df metric)))
             else acc) nw acc ! i
         = acc ! i + sum_list (map (\<lambda>(m, w).
               if m \<in> set (columns df)
               then normalized_values (m \<in> set negative_metrics) (column df m) ! i * w
               else 0) nw)"
  using assms
proof (induction nw arbitrary: acc)
  case Nil
  then show ?case by simp
next
  case (Cons kv nw)
  obtain m w where kv: "kv = (m, w)" by (cases kv)
  show ?case
  proof (cases "m \<in> set (columns df)")
    case False
    with Cons show ?thesis by (simp add: kv)
  next
    case True
    let ?acc = "map2 (+) acc (map (\<lambda>v. v * w)
                    (normalized_values (m \<in> set negative_metrics) (column df m)))"
    have l: "length ?acc = length (rows df)" using Cons.prems(1) by simp
    have n: "?acc ! i = acc ! i
        + normalized_values (m \<in> set negative_metrics) (column df m) ! i * w"
      using Cons.prems by simp
    from Cons.IH[OF l Cons.prems(2)] show ?thesis
      by (simp add: kv True n add.assoc)
  qed
qed

lemma weighted_scores_nth:
  assumes "i < length (rows df)" "fst ` set nw \<subseteq> set (columns df)"
  shows "weighted_scores df nw ! i
     = sum_list (map (\<lambda>(m, w). weighted_contribution (contribution_of df i m w)) nw)"
proof -
  have "weighted_scores df nw ! i
      = sum_list (map (\<lambda>(m, w).
               if m \<in> set (columns df)
               then normalized_values (m \<in> set negative_metrics) (column df m) ! i * w
               else 0) nw)"
    unfolding weighted_scores_def using assms(1) by (simp add: fold_scores_nth)
  also have "\<dots> = sum_list (map (\<lambda>(m, w). weighted_contribution (contribution_of df i m w)) nw)"
    using assms(2)
    by (intro arg_cong[where f = sum_list] map_cong refl)
       (auto simp: contribution_of_fields(4)[OF assms(1)])
  finally show ?thesis .
qed

lemma entry_exists:
  assumes "calculate_category_score df category weights additional_metrics = Inr (frame, used)"
    and "i < length (rows df)"
  shows "\<exists>e \<in> set (entries frame). cells e = rows df ! i \<and> score e = weighted_scores df used ! i"
proof -
  let ?S = "weighted_scores df used"
  let ?P = "map (\<lambda>p. p * 100) (rank_pct ?S)"
  let ?Z = "zip (rows df) (zip ?S ?P)"
  have eq: "set (map (\<lambda>e. (cells e, score e, percentile e)) (entries frame)) = set ?Z"
    by (rule mset_eq_setD[OF entries_zip(2)[OF assms(1)]])
  have "i < length ?Z" using assms(2) by simp
  then have "?Z ! i \<in> set ?Z" by (rule nth_mem)
  moreover have "?Z ! i = (rows df ! i, ?S ! i, ?P ! i)" using assms(2) by simp
  ultimately have "(rows df ! i, ?S ! i, ?P ! i)
      \<in> set (map (\<lambda>e. (cells e, score e, percentile e)) (entries frame))"
    unfolding eq by simp
  then show ?thesis by auto
qed

text \<open>
  Claim C8. For a player of the population (a valid index) and a request that the
  population pass scores, \<open>get_metric_contributions\<close> returns one record per metric of the
  weights the population pass used, in the same order and with the same weight; its raw
  value is the player's cell, its normalised score is the entry of the player in the column
  normalised over the whole population (same minimum and maximum), its weighted
  contribution is the normalised score times the weight, and the weighted contributions sum
  to the player's composite score in the population pass, which is the score of the
  player's row in the ranked output. The weights are a dictionary (distinct keys).
\<close>

theorem get_metric_contributions_matches_population:
  "distinct (map fst weights) \<and> player_idx < length (rows df) \<and>
   calculate_category_score df category weights additional_metrics = Inr (frame, used) \<longrightarrow>
     (\<exists>contributions.
        get_metric_contributions df player_idx category weights additional_metrics
          = Inr contributions \<and>
        map fst contributions = map fst used \<and>
        map (\<lambda>mc. weight (snd mc)) contributions = map snd used \<and>
        (\<forall>mc \<in> set contributions.
           raw_value (snd mc) = (rows df ! player_idx) (fst mc) \<and>
           normalized_score (snd mc)
             = normalized_values (fst mc \<in> set negative_metrics) (column df (fst mc)) ! player_idx \<and>
           weighted_contribution (snd mc) = normalized_score (snd mc) * weight (snd mc)) \<and>
        sum_list (map (\<lambda>mc. weighted_contribution (snd mc)) contributions)
          = weighted_scores df used ! player_idx \<and>
        (\<exists>e \<in> set (entries frame).
           cells e = rows df ! player_idx \<and>
           score e = sum_list (map (\<lambda>mc. weighted_contribution (snd mc)) contributions)))"
proof (rule impI)
  assume a: "distinct (map fst weights) \<and> player_idx < length (rows df) \<and>
   calculate_category_score df category weights additional_metrics = Inr (frame, used)"
  then have d: "distinct (map fst weights)" and i: "player_idx < length (rows df)"
    and c: "calculate_category_score df category weights additional_metrics = Inr (frame, used)"
    by simp_all
  have u: "used = used_weights df weights additional_metrics"
    by (rule entries_zip(1)[OF c])
  let ?cs = "map (\<lambda>(m, w). (m, contribution_of df player_idx m w)) used"
  have keys: "fst ` set used \<subseteq> set (columns df)" unfolding u by (rule used_weights_keys)
  have "\<not> list_ex (\<lambda>(metric, w). metric \<in> set (text_columns df))
        (filtered_weights df weights additional_metrics)"
    using calculate_Inr_cases[OF c] by (simp add: scorable_def)
  then have nt: "\<not> list_ex (\<lambda>(metric, w). metric \<in> set (text_columns df))
        (used_weights df weights additional_metrics)"
    unfolding list_ex_keys map_fst_used_weights .
  have "fold (\<lambda>(m, w) acc.
                    if m \<in> set (columns df) then dict_set acc m (contribution_of df player_idx m w)
                    else acc) used []
          = [] @ ?cs"
    by (rule fold_contrib_map) (use keys distinct_used_weights[OF d, of df additional_metrics] u in auto)
  then have g: "get_metric_contributions df player_idx category weights additional_metrics = Inr ?cs"
    using get_metric_contributions_unfold[OF i nt, of category] u by simp
  have k: "map fst ?cs = map fst used" by (simp add: case_prod_unfold comp_def)
  have w: "map (\<lambda>mc. weight (snd mc)) ?cs = map snd used"
    by (simp add: case_prod_unfold comp_def contribution_of_fields(3)[OF i])
  have f: "\<forall>mc \<in> set ?cs.
           raw_value (snd mc) = (rows df ! player_idx) (fst mc) \<and>
           normalized_score (snd mc)
             = normalized_values (fst mc \<in> set negative_metrics) (column df (fst mc)) ! player_idx \<and>
           weighted_contribution (snd mc) = normalized_score (snd mc) * weight (snd mc)"
    by (auto simp: contribution_of_fields[OF i])
  have "sum_list (map (\<lambda>mc. weighted_contribution (snd mc)) ?cs)
      = sum_list (map (\<lambda>(m, w). weighted_contribution (contribution_of df player_idx m w)) used)"
    by (simp add: case_prod_unfold comp_def)
  also have "\<dots> = weighted_scores df used ! player_idx"
    by (rule weighted_scores_nth[OF i keys, symmetric])
  finally have s: "sum_list (map (\<lambda>mc. weighted_contribution (snd mc)) ?cs)
      = weighted_scores df used ! player_idx" .
  from entry_exists[OF c i] have e: "\<exists>e \<in> set (entries frame).
           cells e = rows df ! player_idx \<and>
           score e = sum_list (map (\<lambda>mc. weighted_contribution (snd mc)) ?cs)"
    unfolding s .
  from g k w f s e show "\<exists>contributions.
        get_metric_contributions df player_idx category weights additional_metrics
          = Inr contributions \<and>
        map fst contributions = map fst used \<and>
        map (\<lambda>mc. weight (snd mc)) contributions = map snd used \<and>
        (\<forall>mc \<in> set contributions.
           raw_value (snd mc) = (rows df ! player_idx) (fst mc) \<and>
           normalized_score (snd mc)
             = normalized_values (fst mc \<in> set negative_metrics) (column df (fst mc)) ! player_idx \<and>
           weighted_contribution (snd mc) = normalized_score (snd mc) * weight (snd mc)) \<and>
        sum_list (map (\<lambda>mc. weighted_contribution (snd mc)) contributions)
          = weighted_scores df used ! player_idx \<and>
        (\<exists>e \<in> set (entries frame).
           cells e = rows df ! player_idx \<and>
           score e = sum_list (map (\<lambda>mc. weighted_contribution (snd mc)) contributions))"
    by (intro exI[of _ ?cs] conjI)
qed

lemma fouls_contributions:
  "get_metric_contributions (frame_of [''Age'', ''Appearances'', ''Goal'', ''Foul''] [[24, 9, 1, 5], [27, 9, 2, 5], [30, 9, 3, 7]]) 1
     ''Attacking Score'' [(''Goal'', 1), (''Foul'', 3)] None
   = Inr [(''Goal'', \<lparr>raw_value = 2, normalized_score = 50, weight = 1 / 4,
                       weighted_contribution = 25 / 2\<rparr>),
          (''Foul'', \<lparr>raw_value = 5, normalized_score = 100, weight = 3 / 4,
                       weighted_contribution = 75\<rparr>)]"
  unfolding get_metric_contributions_def Let_def
  by (simp add: frame_of_def column_def negative_metrics_def dict_set_def)

theorem get_metric_contributions_matches_population_witness:
  "get_metric_contributions (frame_of [''Age'', ''Appearances'', ''Goal'', ''Foul''] [[24, 9, 1, 5], [27, 9, 2, 5], [30, 9, 3, 7]]) 1
     ''Attacking Score'' [(''Goal'', 1), (''Foul'', 3)] None
   = Inr [(''Goal'', \<lparr>raw_value = 2, normalized_score = 50, weight = 1 / 4,
                       weighted_contribution = 25 / 2\<rparr>),
          (''Foul'', \<lparr>raw_value = 5, normalized_score = 100, weight = 3 / 4,
                       weighted_contribution = 75\<rparr>)]
   \<and> snd (projr (calculate_category_score (frame_of [''Age'', ''Appearances'', ''Goal'', ''Foul''] [[24, 9, 1, 5], [27, 9, 2, 5], [30, 9, 3, 7]])
        ''Attacking Score'' [(''Goal'', 1), (''Foul'', 3)] None))
       = [(''Goal'', 1 / 4), (''Foul'', 3 / 4)]
   \<and> weighted_scores (frame_of [''Age'', ''Appearances'', ''Goal'', ''Foul''] [[24, 9, 1, 5], [27, 9, 2, 5], [30, 9, 3, 7]])
        [(''Goal'', 1 / 4), (''Foul'', 3 / 4)] ! 1 = 175 / 2"
proof -
  let ?F = "frame_of [''Age'', ''Appearances'', ''Goal'', ''Foul''] [[24, 9, 1, 5], [27, 9, 2, 5], [30, 9, 3, 7]]"
  let ?W = "[(''Goal'', 1), (''Foul'', 3::rat)]"
  let ?c = "calculate_category_score ?F ''Attacking Score'' ?W None"
  have r: "scorable ?F ?W None" "1 < length (rows ?F)"
    by (simp_all add: scorable_def frame_of_def filtered_weights_def combined_weights_def
          selected_columns_def)
  have u: "used_weights ?F ?W None = [(''Goal'', 1 / 4), (''Foul'', 3 / 4)]"
    by (simp add: used_weights_def filtered_weights_def combined_weights_def frame_of_def)
  from calculate_Inr[OF r(1), of "''Attacking Score''"]
  have c: "?c = Inr (fst (projr ?c), [(''Goal'', 1 / 4), (''Foul'', 3 / 4)])"
    unfolding u by auto
  then have p: "snd (projr ?c) = [(''Goal'', 1 / 4), (''Foul'', 3 / 4)]"
    by (metis sum.sel(2) snd_conv)
  have d: "distinct (map fst ?W)" by simp
  from get_metric_contributions_matches_population
    [of ?W 1 ?F "''Attacking Score''" None "fst (projr ?c)" "[(''Goal'', 1 / 4), (''Foul'', 3 / 4)]"]
    d r(2) c
  obtain contributions where
    g: "get_metric_contributions ?F 1 ''Attacking Score'' ?W None = Inr contributions"
    and s: "sum_list (map (\<lambda>mc. weighted_contribution (snd mc)) contributions)
          = weighted_scores ?F [(''Goal'', 1 / 4), (''Foul'', 3 / 4)] ! 1"
    by blast
  from g have "contributions = [(''Goal'', \<lparr>raw_value = 2, normalized_score = 50, weight = 1 / 4,
                       weighted_contribution = 25 / 2\<rparr>),
          (''Foul'', \<lparr>raw_value = 5, normalized_score = 100, weight = 3 / 4,
                       weighted_contribution = 75\<rparr>)]"
    unfolding fouls_contributions by simp
  with s have "weighted_scores ?F [(''Goal'', 1 / 4), (''Foul'', 3 / 4)] ! 1 = 175 / 2"
    by simp
  with fouls_contributions p show ?thesis by simp
qed

end
